theory Spec2Isabelle
  imports Complex_Main "HOL-Library.AList"
begin

section \<open>The dynamic-media-video block: a shallow embedding\<close>

text \<open>
  The block decorator of \<^verbatim>\<open>blocks/dynamic-media-video/dynamic-media-video.js\<close>,
  function by function. JavaScript strings are lists of code units; the embedding covers
  code units below 256. What the browser supplies (the URL parser, \<^verbatim>\<open>JSON.parse\<close>,
  the third-party viewer, the outcome of the awaited script load) is a parameter, gathered
  in the record \<open>host\<close> further down.
\<close>

subsection \<open>Strings\<close>

text \<open>
  \<^verbatim>\<open>String.prototype.toLowerCase\<close> on the letters A to Z. The source only ever compares
  the lowered text with the literal \<^verbatim>\<open>'true'\<close>, and the regular expression's \<^verbatim>\<open>i\<close>
  flag only ever folds the letters of an ASCII literal; no code unit outside A to Z lowers
  or folds to one of those letters.
\<close>

definition lower_char :: "char \<Rightarrow> char" where
  "lower_char c =
     (case map_of (zip ''ABCDEFGHIJKLMNOPQRSTUVWXYZ'' ''abcdefghijklmnopqrstuvwxyz'') c of
        Some d \<Rightarrow> d
      | None \<Rightarrow> c)"

definition toLowerCase :: "string \<Rightarrow> string" where
  "toLowerCase s = map lower_char s"

text \<open>
  The white space and line terminators that \<^verbatim>\<open>trim\<close> strips, among the code units
  below 256: tab, line feed, vertical tab, form feed, carriage return, space and the
  no-break space.
\<close>

definition is_space :: "char \<Rightarrow> bool" where
  "is_space c = ((of_char c :: nat) \<in> {9, 10, 11, 12, 13, 32, 160})"

definition trim :: "string \<Rightarrow> string" where
  "trim s = rev (dropWhile is_space (rev (dropWhile is_space s)))"

subsection \<open>The asset-identifier pattern\<close>

text \<open>
  \<^verbatim>\<open>const urnPattern = /(\/adobe\/assets\/urn:[^/]+)/i;\<close>
  \<^verbatim>\<open>const match = videoUrl.match(urnPattern);\<close>

  \<open>urn_here s\<close> is the attempt to match at the very start of \<open>s\<close>: the 18 code units
  of the literal, compared without regard to case, then the longest non-empty run of code
  units other than the slash. \<open>urn_exec\<close> tries every start position from the left, as
  the regular-expression engine does, and returns the text before the match together
  with capture group 1 (\<^verbatim>\<open>match[1]\<close>); \<open>None\<close> is the \<^verbatim>\<open>null\<close> of a failed match.
\<close>

definition urn_literal :: string where
  "urn_literal = ''/adobe/assets/urn:''"

definition urn_here :: "string \<Rightarrow> string option" where
  "urn_here s =
     (let lit = take 18 s; rest = drop 18 s in
      if toLowerCase lit = urn_literal \<and> takeWhile (\<lambda>c. c \<noteq> CHR ''/'') rest \<noteq> []
      then Some (lit @ takeWhile (\<lambda>c. c \<noteq> CHR ''/'') rest)
      else None)"

fun urn_exec :: "string \<Rightarrow> (string \<times> string) option" where
  "urn_exec [] = None"
| "urn_exec (c # cs) =
     (case urn_here (c # cs) of
        Some m \<Rightarrow> Some ([], m)
      | None \<Rightarrow> (case urn_exec cs of
                   None \<Rightarrow> None
                 | Some (before, m) \<Rightarrow> Some (c # before, m)))"

definition urn_match :: "string \<Rightarrow> string option" where
  "urn_match videoUrl = map_option snd (urn_exec videoUrl)"

subsection \<open>URL derivation\<close>

text \<open>
  The two fields of a \<^verbatim>\<open>URL\<close> object that the source reads.
\<close>

record url =
  protocol :: string
  hostname :: string

text \<open>
  \<^verbatim>\<open>const baseUrl = `${videoURLObj.protocol}//${videoURLObj.hostname}`;\<close>
\<close>

definition baseUrl :: "url \<Rightarrow> string" where
  "baseUrl videoURLObj = protocol videoURLObj @ ''//'' @ hostname videoURLObj"

definition posterImageUrl :: "url \<Rightarrow> string \<Rightarrow> string" where
  "posterImageUrl videoURLObj assetIdPath =
     baseUrl videoURLObj @ assetIdPath @ ''/as/thumbnail.jpeg?preferwebp=true''"

definition dashUrl :: "url \<Rightarrow> string \<Rightarrow> string" where
  "dashUrl videoURLObj assetIdPath = baseUrl videoURLObj @ assetIdPath @ ''/manifest.mpd''"

definition hlsUrl :: "url \<Rightarrow> string \<Rightarrow> string" where
  "hlsUrl videoURLObj assetIdPath = baseUrl videoURLObj @ assetIdPath @ ''/manifest.m3u8''"

subsection \<open>The DOM\<close>

text \<open>
  An element carries its local name, its content attributes (\<^verbatim>\<open>id\<close>, \<^verbatim>\<open>href\<close>,
  \<^verbatim>\<open>data-*\<close>, ...; the class attribute is kept apart as the token list
  \<^verbatim>\<open>classList\<close>), the value of \<^verbatim>\<open>style.display\<close> when the script has set it, and its
  child nodes. The block, the root the decorator is called on, is a record of the same
  three parts, so that it can be updated in place.
\<close>

datatype node =
    Text string
  | Element (tag: string) (attributes: "(string \<times> string) list") (classList: "string list")
      (style_display: "string option") (childNodes: "node list")

record block =
  attrs :: "(string \<times> string) list"
  classes :: "string list"
  kids :: "node list"

fun is_element :: "node \<Rightarrow> bool" where
  "is_element (Element t a c d ks) = True"
| "is_element (Text s) = False"

text \<open>\<^verbatim>\<open>element.children\<close>: the child nodes that are elements.\<close>

definition children_of :: "node list \<Rightarrow> node list" where
  "children_of ks = filter is_element ks"

text \<open>The elements of a subtree in document order (preorder), the root first.\<close>

fun subtree :: "node \<Rightarrow> node list" where
  "subtree (Text s) = []"
| "subtree (Element t a c d ks) = Element t a c d ks # concat (map subtree ks)"

definition descendants :: "node list \<Rightarrow> node list" where
  "descendants ks = concat (map subtree ks)"

fun textContent :: "node \<Rightarrow> string" where
  "textContent (Text s) = s"
| "textContent (Element t a c d ks) = concat (map textContent ks)"

text \<open>\<^verbatim>\<open>block.querySelectorAll('a[href]')\<close>, in document order.\<close>

definition is_link :: "node \<Rightarrow> bool" where
  "is_link e = (tag e = ''a'' \<and> map_of (attributes e) ''href'' \<noteq> None)"

definition querySelectorAll_a_href :: "block \<Rightarrow> node list" where
  "querySelectorAll_a_href b = filter is_link (descendants (kids b))"

text \<open>\<^verbatim>\<open>row.querySelector(name)\<close> for a type selector: the first descendant of that name.\<close>

definition querySelector :: "string \<Rightarrow> node \<Rightarrow> node option" where
  "querySelector name row = find (\<lambda>e. tag e = name) (descendants (childNodes row))"

text \<open>\<^verbatim>\<open>block.dataset[attrName]\<close> for a lower-case name: the attribute \<^verbatim>\<open>data-attrName\<close>.\<close>

definition dataset :: "block \<Rightarrow> string \<Rightarrow> string option" where
  "dataset b attrName = map_of (attrs b) (''data-'' @ attrName)"

text \<open>\<^verbatim>\<open>child.style.display = 'none'\<close>\<close>

fun hide :: "node \<Rightarrow> node" where
  "hide (Element t a c d ks) = Element t a c (Some ''none'') ks"
| "hide (Text s) = Text s"

text \<open>
  \<^verbatim>\<open>Array.from(block.children).forEach((child) => { child.style.display = 'none'; });\<close>
\<close>

definition hide_children :: "node list \<Rightarrow> node list" where
  "hide_children ks = map hide ks"

text \<open>
  \<^verbatim>\<open>if (!child.classList.contains('dm-video-ui')) { child.style.display = 'none'; }\<close>
\<close>

fun hide_unless_ui :: "node \<Rightarrow> node" where
  "hide_unless_ui (Element t a c d ks) =
     (if ''dm-video-ui'' \<in> set c then Element t a c d ks else Element t a c (Some ''none'') ks)"
| "hide_unless_ui (Text s) = Text s"

definition classList_add :: "string \<Rightarrow> string list \<Rightarrow> string list" where
  "classList_add c cs = (if c \<in> set cs then cs else cs @ [c])"

subsection \<open>Configuration read from the block\<close>

text \<open>
  \<^verbatim>\<open>const getTextFromRow = (index) => {\<close>
  \<^verbatim>\<open>  const row = children[index];\<close>
  \<^verbatim>\<open>  if (!row) return '';\<close>
  \<^verbatim>\<open>  const textEl = row.querySelector('p') || row.querySelector('div');\<close>
  \<^verbatim>\<open>  return textEl?.textContent?.trim() || row.textContent?.trim() || '';\<close>
  \<^verbatim>\<open>};\<close>
  An index past the last child reads \<^verbatim>\<open>undefined\<close>, which is the first return.
\<close>

definition getTextFromRow :: "block \<Rightarrow> nat \<Rightarrow> string" where
  "getTextFromRow b index =
     (let children = children_of (kids b) in
      if index < length children then
        (let row = children ! index;
             textEl = (case querySelector ''p'' row of
                         Some p \<Rightarrow> Some p
                       | None \<Rightarrow> querySelector ''div'' row);
             first = (case textEl of Some e \<Rightarrow> trim (textContent e) | None \<Rightarrow> [])
         in if first \<noteq> [] then first else trim (textContent row))
      else [])"

text \<open>
  \<^verbatim>\<open>const getBoolFromDataOrRow = (attrName, rowIndex, defaultValue = false) => {\<close>
  \<^verbatim>\<open>  if (block.dataset[attrName] != null) {\<close>
  \<^verbatim>\<open>    return String(block.dataset[attrName]).toLowerCase() === 'true';\<close>
  \<^verbatim>\<open>  }\<close>
  \<^verbatim>\<open>  const rowValue = getTextFromRow(rowIndex);\<close>
  \<^verbatim>\<open>  if (rowValue) { return rowValue.toLowerCase() === 'true'; }\<close>
  \<^verbatim>\<open>  return defaultValue;\<close>
  \<^verbatim>\<open>};\<close>
\<close>

definition getBoolFromDataOrRow :: "block \<Rightarrow> string \<Rightarrow> nat \<Rightarrow> bool \<Rightarrow> bool" where
  "getBoolFromDataOrRow b attrName rowIndex defaultValue =
     (case dataset b attrName of
        Some v \<Rightarrow> toLowerCase v = ''true''
      | None \<Rightarrow>
          (let rowValue = getTextFromRow b rowIndex in
           if rowValue \<noteq> [] then toLowerCase rowValue = ''true'' else defaultValue))"

definition autoplay_of :: "block \<Rightarrow> bool" where
  "autoplay_of b = getBoolFromDataOrRow b ''autoplay'' 2 False"

definition loop_of :: "block \<Rightarrow> bool" where
  "loop_of b = getBoolFromDataOrRow b ''loop'' 3 False"

definition muted_of :: "block \<Rightarrow> bool" where
  "muted_of b = getBoolFromDataOrRow b ''muted'' 4 False"

text \<open>
  \<^verbatim>\<open>const showControls = block.dataset.controls != null\<close>
  \<^verbatim>\<open>  ? String(block.dataset.controls).toLowerCase() === 'true' : true;\<close>
\<close>

definition showControls_of :: "block \<Rightarrow> bool" where
  "showControls_of b =
     (case dataset b ''controls'' of
        Some v \<Rightarrow> toLowerCase v = ''true''
      | None \<Rightarrow> True)"

subsection \<open>Exceptions and JSON values\<close>

datatype js_error = TypeError | SyntaxError | Error string

text \<open>
  The values \<^verbatim>\<open>JSON.parse\<close> can return. A number is kept as the text that
  \<^verbatim>\<open>String\<close> gives it (\<^verbatim>\<open>30\<close>, \<^verbatim>\<open>12.5\<close>), which is all the source does with one;
  an object is the list of its own properties. \<open>None\<close> of type \<open>jsval option\<close> is
  \<^verbatim>\<open>undefined\<close>, the value of a property that is not there.
\<close>

datatype jsval =
    JNull
  | JBool bool
  | JNum string
  | JStr string
  | JArr "jsval list"
  | JObj "(string \<times> jsval) list"

fun truthy :: "jsval \<Rightarrow> bool" where
  "truthy JNull = False"
| "truthy (JBool b) = b"
| "truthy (JNum t) = (t \<noteq> ''0'' \<and> t \<noteq> ''NaN'')"
| "truthy (JStr s) = (s \<noteq> [])"
| "truthy (JArr xs) = True"
| "truthy (JObj kvs) = True"

fun join :: "string \<Rightarrow> string list \<Rightarrow> string" where
  "join sep [] = []"
| "join sep [x] = x"
| "join sep (x # y # ys) = x @ sep @ join sep (y # ys)"

text \<open>The first exception of a list of results, or all their values.\<close>

fun collect :: "(js_error + 'a) list \<Rightarrow> js_error + 'a list" where
  "collect [] = Inr []"
| "collect (r # rs) =
     (case r of
        Inl e \<Rightarrow> Inl e
      | Inr x \<Rightarrow> (case collect rs of Inl e \<Rightarrow> Inl e | Inr xs \<Rightarrow> Inr (x # xs)))"

text \<open>
  \<^verbatim>\<open>String(v)\<close>, the conversion to a string. An array joins the texts of its elements
  with commas, from left to right, \<^verbatim>\<open>null\<close> elements giving the empty text. An object
  with an own property named \<^verbatim>\<open>toString\<close> throws a \<^verbatim>\<open>TypeError\<close>: the property's
  value, coming from JSON, is not callable, and the inherited \<^verbatim>\<open>valueOf\<close> returns the
  object itself, which is no primitive; any other object is converted by the inherited
  \<^verbatim>\<open>toString\<close>.
\<close>

fun ToString :: "jsval \<Rightarrow> js_error + string" where
  "ToString JNull = Inr ''null''"
| "ToString (JBool b) = Inr (if b then ''true'' else ''false'')"
| "ToString (JNum t) = Inr t"
| "ToString (JStr s) = Inr s"
| "ToString (JArr xs) =
     (case collect (map (\<lambda>x. if x = JNull then Inr [] else ToString x) xs) of
        Inl e \<Rightarrow> Inl e
      | Inr texts \<Rightarrow> Inr (join '','' texts))"
| "ToString (JObj kvs) =
     (if map_of kvs ''toString'' \<noteq> None then Inl TypeError else Inr ''[object Object]'')"

text \<open>
  Reading the property \<^verbatim>\<open>label\<close> or \<^verbatim>\<open>time\<close> of a chapter: a \<^verbatim>\<open>TypeError\<close> on
  \<^verbatim>\<open>null\<close>, the own property of an object, \<^verbatim>\<open>undefined\<close> on everything else.
\<close>

fun get_property :: "jsval \<Rightarrow> string \<Rightarrow> js_error + jsval option" where
  "get_property JNull k = Inl TypeError"
| "get_property (JObj kvs) k = Inr (map_of kvs k)"
| "get_property v k = Inr None"

text \<open>
  The conversions at the two places a chapter's fields are stored: \<^verbatim>\<open>textContent\<close> is a
  nullable string attribute, so \<^verbatim>\<open>null\<close> and \<^verbatim>\<open>undefined\<close> give the empty text;
  \<^verbatim>\<open>dataset.time\<close> takes \<^verbatim>\<open>String(v)\<close> of whatever it is given. Both throw what the
  conversion throws.
\<close>

fun nullable_text :: "jsval option \<Rightarrow> js_error + string" where
  "nullable_text None = Inr []"
| "nullable_text (Some JNull) = Inr []"
| "nullable_text (Some v) = ToString v"

fun plain_text :: "jsval option \<Rightarrow> js_error + string" where
  "plain_text None = Inr ''undefined''"
| "plain_text (Some v) = ToString v"

subsection \<open>The third-party viewer and the host\<close>

text \<open>
  The media player that \<^verbatim>\<open>getMediaPlayer()\<close> hands out: \<^verbatim>\<open>addEventListener\<close> of an
  event name returns (\<open>None\<close>) or throws.
\<close>

record media_player =
  addEventListener :: "string \<Rightarrow> js_error option"

text \<open>
  \<^verbatim>\<open>videoViewer.getMediaPlayer\<close>: not a function, or a method that throws, returns a
  falsy value (\<open>None\<close>) or returns a player.
\<close>

datatype accessor = NotAFunction | Method "js_error + media_player option"

record viewer =
  init :: "js_error option"
  getMediaPlayer :: accessor

record params =
  posterimage :: string
  autoplay :: string
  loop :: string
  muted :: string
  hidecontrolbar :: string
  sources :: "(string \<times> string) list"

record ctor_args =
  containerId :: string
  params :: params

text \<open>
  What the page and the browser supply to one call of \<^verbatim>\<open>decorate\<close>:
  \<^item> \<open>gate\<close>: how the promise cached in \<^verbatim>\<open>dmViewerPromise\<close> settles, \<open>None\<close> when it is
    fulfilled and \<open>Some e\<close> when it is rejected with \<open>e\<close>. It stands for \<^verbatim>\<open>loadScript\<close>
    of \<^verbatim>\<open>scripts/aem.js\<close> followed by the timer-driven polling of \<^verbatim>\<open>waitForDMViewer\<close>;
    the promise is taken to settle;
  \<^item> \<open>VideoViewer\<close>: \<^verbatim>\<open>window.dmviewers?.VideoViewer\<close>, \<open>None\<close> when it is falsy,
    otherwise the constructor, which returns a viewer or throws;
  \<^item> \<open>URL_new\<close>: \<^verbatim>\<open>new URL(text)\<close>, which throws on text that is not a URL;
  \<^item> \<open>JSON_parse\<close>: \<^verbatim>\<open>JSON.parse(text)\<close>, which throws on text that is not JSON;
  \<^item> \<open>href_of\<close>: the \<^verbatim>\<open>href\<close> property of an anchor with the given \<^verbatim>\<open>href\<close> attribute
    (the attribute resolved against the document, or the attribute itself when it does
    not parse);
  \<^item> \<open>Date_now\<close>, \<open>Math_random\<close>: the texts of \<^verbatim>\<open>Date.now()\<close> and of
    \<^verbatim>\<open>Math.random().toString(36).substring(2, 11)\<close>.
\<close>

record host =
  gate :: "js_error option"
  VideoViewer :: "(ctor_args \<Rightarrow> js_error + viewer) option"
  URL_new :: "string \<Rightarrow> js_error + url"
  JSON_parse :: "string \<Rightarrow> js_error + jsval"
  href_of :: "string \<Rightarrow> string"
  Date_now :: string
  Math_random :: string

subsection \<open>The readiness gate\<close>

text \<open>
  \<^verbatim>\<open>let dmViewerPromise;\<close>
  \<^verbatim>\<open>async function loadDMVideoViewer() {\<close>
  \<^verbatim>\<open>  if (!dmViewerPromise) {\<close>
  \<^verbatim>\<open>    dmViewerPromise = (async () => {\<close>
  \<^verbatim>\<open>      await loadScript(DM_VIDEO_VIEWER_URL);\<close>
  \<^verbatim>\<open>      await waitForDMViewer();\<close>
  \<^verbatim>\<open>    })();\<close>
  \<^verbatim>\<open>  }\<close>
  \<^verbatim>\<open>  return dmViewerPromise;\<close>
  \<^verbatim>\<open>}\<close>

  Promise objects live in a heap, a list indexed by their handles. \<open>ViewerLoad\<close> is the
  promise of the inner async function, whose body calls \<^verbatim>\<open>loadScript\<close> before its first
  \<^verbatim>\<open>await\<close>, that is, during the call that creates it. \<^verbatim>\<open>loadDMVideoViewer\<close> is itself
  declared \<^verbatim>\<open>async\<close>: what a call returns is the promise of that call, resolved with
  the value of the \<^verbatim>\<open>return\<close> statement (\<open>ResolvedWith p\<close>: it settles as promise \<open>p\<close>
  does).
\<close>

datatype promise = ViewerLoad | ResolvedWith nat

record module_state =
  dmViewerPromise :: "nat option"
  promises :: "promise list"
  loadScript_calls :: "string list"

definition DM_VIDEO_VIEWER_URL :: string where
  "DM_VIDEO_VIEWER_URL =
     ''https://delivery-p153659-e1620914.adobeaemcloud.com/adobe/assets/urn:aaid:aem:dmviewers-html5/as/DMVideoViewer.js''"

definition async_return :: "nat \<Rightarrow> module_state \<Rightarrow> nat \<times> module_state" where
  "async_return p m = (length (promises m), m\<lparr>promises := promises m @ [ResolvedWith p]\<rparr>)"

definition loadDMVideoViewer :: "module_state \<Rightarrow> nat \<times> module_state" where
  "loadDMVideoViewer m =
     (case dmViewerPromise m of
        None \<Rightarrow>
          (let p = length (promises m) in
           async_return p
             (m\<lparr>dmViewerPromise := Some p,
                promises := promises m @ [ViewerLoad],
                loadScript_calls := loadScript_calls m @ [DM_VIDEO_VIEWER_URL]\<rparr>))
      | Some p \<Rightarrow> async_return p m)"

text \<open>The module as it is when the script has just been loaded.\<close>

definition fresh_module :: module_state where
  "fresh_module = \<lparr>dmViewerPromise = None, promises = [], loadScript_calls = []\<rparr>"

text \<open>Successive calls, each on the state the one before left; the handles returned.\<close>

fun load_calls :: "nat \<Rightarrow> module_state \<Rightarrow> nat list \<times> module_state" where
  "load_calls 0 m = ([], m)"
| "load_calls (Suc n) m =
     (let (p, m1) = loadDMVideoViewer m; (ps, m2) = load_calls n m1 in (p # ps, m2))"

subsection \<open>One run of the decorator\<close>

text \<open>
  What a run does to the world outside the block, in the order it does it: console
  output, each \<^verbatim>\<open>block.setAttribute\<close>, each call of the viewer's constructor and of its
  \<^verbatim>\<open>init\<close>, each listener registered.
\<close>

datatype log_arg = ErrArg js_error | StrArg string

datatype effect =
    ConsoleError string "log_arg list"
  | ConsoleWarn string "log_arg list"
  | SetAttribute string string
  | New_VideoViewer ctor_args
  | Viewer_init
  | AddEventListener string string

text \<open>
  The state of a run: the exception in flight if there is one (at the end of the run, the
  exception the promise returned by \<^verbatim>\<open>decorate\<close> is rejected with), the block, the
  effects so far and the module's state.
\<close>

record run =
  thrown :: "js_error option"
  blk :: block
  trace :: "effect list"
  modl :: module_state

definition emit :: "effect \<Rightarrow> run \<Rightarrow> run" where
  "emit e r = r\<lparr>trace := trace r @ [e]\<rparr>"

text \<open>\<^verbatim>\<open>block.setAttribute(name, v)\<close>\<close>

definition block_setAttribute :: "string \<Rightarrow> string \<Rightarrow> run \<Rightarrow> run" where
  "block_setAttribute name v r =
     emit (SetAttribute name v)
       (r\<lparr>blk := (blk r)\<lparr>attrs := AList.update name v (attrs (blk r))\<rparr>\<rparr>)"

definition set_marker :: "string \<Rightarrow> run \<Rightarrow> run" where
  "set_marker v r = block_setAttribute ''data-video-loaded'' v r"

text \<open>The marker as the block carries it.\<close>

definition marker :: "run \<Rightarrow> string option" where
  "marker r = map_of (attrs (blk r)) ''data-video-loaded''"

definition appendChild :: "node \<Rightarrow> run \<Rightarrow> run" where
  "appendChild n r = r\<lparr>blk := (blk r)\<lparr>kids := kids (blk r) @ [n]\<rparr>\<rparr>"

text \<open>
  \<^verbatim>\<open>block.id = block.id || `dm-video-${Date.now()}-${Math.random()...}`;\<close>
\<close>

definition block_id :: "block \<Rightarrow> string" where
  "block_id b = (case map_of (attrs b) ''id'' of Some i \<Rightarrow> i | None \<Rightarrow> [])"

definition ensure_id :: "host \<Rightarrow> run \<Rightarrow> run" where
  "ensure_id h r =
     (let i = (if block_id (blk r) \<noteq> [] then block_id (blk r)
               else ''dm-video-'' @ Date_now h @ ''-'' @ Math_random h)
      in r\<lparr>blk := (blk r)\<lparr>attrs := AList.update ''id'' i (attrs (blk r))\<rparr>\<rparr>)"

subsubsection \<open>Chapters\<close>

text \<open>
  \<^verbatim>\<open>let chapters = [];\<close>
  \<^verbatim>\<open>if (block.dataset.chapters) {\<close>
  \<^verbatim>\<open>  try { chapters = JSON.parse(block.dataset.chapters); }\<close>
  \<^verbatim>\<open>  catch (e) { console.warn('Invalid chapters JSON on dm-video block', e); }\<close>
  \<^verbatim>\<open>}\<close>
  The value of \<^verbatim>\<open>chapters\<close> after these lines, and the exception the handler
  caught and passes to \<^verbatim>\<open>console.warn\<close>, if any.
\<close>

definition parse_chapters :: "host \<Rightarrow> block \<Rightarrow> jsval \<times> js_error option" where
  "parse_chapters h b =
     (case dataset b ''chapters'' of
        None \<Rightarrow> (JArr [], None)
      | Some text \<Rightarrow>
          if text = [] then (JArr [], None)
          else (case JSON_parse h text of
                  Inr v \<Rightarrow> (v, None)
                | Inl e \<Rightarrow> (JArr [], Some e)))"

definition warn_chapters :: "js_error option \<Rightarrow> run \<Rightarrow> run" where
  "warn_chapters caught r =
     (case caught of
        None \<Rightarrow> r
      | Some e \<Rightarrow> emit (ConsoleWarn ''Invalid chapters JSON on dm-video block'' [ErrArg e]) r)"

text \<open>
  The body of \<^verbatim>\<open>chapters.forEach\<close>: one button per chapter.
  \<^verbatim>\<open>btn.type = 'button'; btn.className = 'dm-video-chapter';\<close>
  \<^verbatim>\<open>btn.textContent = chapter.label; btn.dataset.time = chapter.time;\<close>
  Each of the two assignments reads the property and then converts its value; the first
  step that throws ends the callback, and with it \<^verbatim>\<open>forEach\<close>.
\<close>

definition chapter_button :: "jsval \<Rightarrow> js_error + node" where
  "chapter_button chapter =
     (case get_property chapter ''label'' of
        Inl e \<Rightarrow> Inl e
      | Inr label \<Rightarrow>
          (case nullable_text label of
             Inl e \<Rightarrow> Inl e
           | Inr labelText \<Rightarrow>
               (case get_property chapter ''time'' of
                  Inl e \<Rightarrow> Inl e
                | Inr time \<Rightarrow>
                    (case plain_text time of
                       Inl e \<Rightarrow> Inl e
                     | Inr timeText \<Rightarrow>
                         Inr (Element ''button''
                                [(''type'', ''button''), (''data-time'', timeText)]
                                [''dm-video-chapter''] None
                                (if labelText = [] then [] else [Text labelText]))))))"

fun chapter_buttons :: "jsval list \<Rightarrow> js_error + node list" where
  "chapter_buttons [] = Inr []"
| "chapter_buttons (c # cs) =
     (case chapter_button c of
        Inl e \<Rightarrow> Inl e
      | Inr b \<Rightarrow> (case chapter_buttons cs of Inl e \<Rightarrow> Inl e | Inr bs \<Rightarrow> Inr (b # bs)))"

text \<open>
  \<^verbatim>\<open>let chaptersContainer = null;\<close>
  \<^verbatim>\<open>if (chapters.length) {\<close>
  \<^verbatim>\<open>  chaptersContainer = document.createElement('div');\<close>
  \<^verbatim>\<open>  chaptersContainer.className = 'dm-video-chapters';\<close>
  \<^verbatim>\<open>  chapters.forEach((chapter) => { ... chaptersContainer.appendChild(btn); });\<close>
  \<^verbatim>\<open>  block.appendChild(chaptersContainer);\<close>
  \<^verbatim>\<open>}\<close>
  Reading \<^verbatim>\<open>length\<close> of \<^verbatim>\<open>null\<close> throws; only an array has \<^verbatim>\<open>forEach\<close>, so a
  non-empty string, or an object with a truthy \<^verbatim>\<open>length\<close> property, throws at the call.
  The result is the container, \<open>None\<close> for the \<^verbatim>\<open>null\<close> it stays at when there is
  nothing to render.
\<close>

fun chapters_ui :: "jsval \<Rightarrow> js_error + node option" where
  "chapters_ui JNull = Inl TypeError"
| "chapters_ui (JArr cs) =
     (if cs = [] then Inr None
      else (case chapter_buttons cs of
              Inl e \<Rightarrow> Inl e
            | Inr bs \<Rightarrow> Inr (Some (Element ''div'' [] [''dm-video-chapters''] None bs))))"
| "chapters_ui (JStr s) = (if s = [] then Inr None else Inl TypeError)"
| "chapters_ui (JObj kvs) =
     (case map_of kvs ''length'' of
        None \<Rightarrow> Inr None
      | Some l \<Rightarrow> if truthy l then Inl TypeError else Inr None)"
| "chapters_ui (JBool b) = Inr None"
| "chapters_ui (JNum t) = Inr None"

subsubsection \<open>Analytics wiring\<close>

text \<open>
  The four \<^verbatim>\<open>player.addEventListener\<close> calls of \<^verbatim>\<open>setupAnalytics\<close>, in order; the
  first one that throws ends them.
\<close>

fun add_listeners :: "media_player \<Rightarrow> string list \<Rightarrow> run \<Rightarrow> run" where
  "add_listeners player [] r = r"
| "add_listeners player (ev # evs) r =
     (case addEventListener player ev of
        Some e \<Rightarrow> r\<lparr>thrown := Some e\<rparr>
      | None \<Rightarrow> add_listeners player evs (emit (AddEventListener ''player'' ev) r))"

text \<open>
  \<^verbatim>\<open>function setupAnalytics(videoViewer, assetIdPath, chaptersContainer) {\<close>
  \<^verbatim>\<open>  if (typeof videoViewer.getMediaPlayer !== 'function') return;\<close>
  \<^verbatim>\<open>  const player = videoViewer.getMediaPlayer();\<close>
  \<^verbatim>\<open>  if (!player) return;\<close>
  \<^verbatim>\<open>  player.addEventListener('play', ...); ... ('pause', ...); ... ('ended', ...);\<close>
  \<^verbatim>\<open>  player.addEventListener('timeupdate', ...);\<close>
  \<^verbatim>\<open>  if (chaptersContainer) { chaptersContainer.addEventListener('click', ...); }\<close>
  \<^verbatim>\<open>}\<close>
  The handlers themselves run later, on the events; the one for \<^verbatim>\<open>timeupdate\<close> is
  \<open>on_timeupdate\<close> below.
\<close>

definition setupAnalytics :: "viewer \<Rightarrow> string \<Rightarrow> node option \<Rightarrow> run \<Rightarrow> run" where
  "setupAnalytics videoViewer assetIdPath chaptersContainer r =
     (case getMediaPlayer videoViewer of
        NotAFunction \<Rightarrow> r
      | Method (Inl e) \<Rightarrow> r\<lparr>thrown := Some e\<rparr>
      | Method (Inr None) \<Rightarrow> r
      | Method (Inr (Some player)) \<Rightarrow>
          (let r1 = add_listeners player [''play'', ''pause'', ''ended'', ''timeupdate''] r in
           if thrown r1 \<noteq> None then r1
           else if chaptersContainer \<noteq> None
             then emit (AddEventListener ''chaptersContainer'' ''click'') r1
           else r1))"

subsubsection \<open>Construction\<close>

text \<open>
  The \<^verbatim>\<open>catch\<close> clause of the last \<^verbatim>\<open>try\<close>, which also ends the exception:
  \<^verbatim>\<open>console.error('Failed to initialize DM VideoViewer', e);\<close>
  \<^verbatim>\<open>block.setAttribute('data-video-loaded', 'error');\<close>
\<close>

definition init_failed :: "js_error \<Rightarrow> run \<Rightarrow> run" where
  "init_failed e r =
     set_marker ''error''
       (emit (ConsoleError ''Failed to initialize DM VideoViewer'' [ErrArg e]) (r\<lparr>thrown := None\<rparr>))"

text \<open>
  \<^verbatim>\<open>try {\<close>
  \<^verbatim>\<open>  block.setAttribute('data-video-loaded', 'loading');\<close>
  \<^verbatim>\<open>  const videoViewer = new window.dmviewers.VideoViewer({ containerId: ..., params });\<close>
  \<^verbatim>\<open>  videoViewer.init();\<close>
  \<^verbatim>\<open>  setupAnalytics(videoViewer, assetIdPath, chaptersContainer);\<close>
  \<^verbatim>\<open>  block.setAttribute('data-video-loaded', 'true');\<close>
  \<^verbatim>\<open>} catch (e) { ... }\<close>
  \<open>construct_player\<close> is the body of the \<^verbatim>\<open>try\<close>, left with the exception in flight
  when a step throws; \<open>start_player\<close> is the whole statement.
\<close>

definition construct_player ::
  "(ctor_args \<Rightarrow> js_error + viewer) \<Rightarrow> ctor_args \<Rightarrow> string \<Rightarrow> node option \<Rightarrow> run \<Rightarrow> run" where
  "construct_player ctor args assetIdPath chaptersContainer r =
     (let r1 = emit (New_VideoViewer args) (set_marker ''loading'' r) in
      case ctor args of
        Inl e \<Rightarrow> r1\<lparr>thrown := Some e\<rparr>
      | Inr videoViewer \<Rightarrow>
          (let r2 = emit Viewer_init r1 in
           case init videoViewer of
             Some e \<Rightarrow> r2\<lparr>thrown := Some e\<rparr>
           | None \<Rightarrow>
               (let r3 = setupAnalytics videoViewer assetIdPath chaptersContainer r2 in
                case thrown r3 of
                  Some e \<Rightarrow> r3
                | None \<Rightarrow> set_marker ''true'' r3)))"

definition start_player ::
  "(ctor_args \<Rightarrow> js_error + viewer) \<Rightarrow> ctor_args \<Rightarrow> string \<Rightarrow> node option \<Rightarrow> run \<Rightarrow> run" where
  "start_player ctor args assetIdPath chaptersContainer r =
     (let r' = construct_player ctor args assetIdPath chaptersContainer r in
      case thrown r' of
        Some e \<Rightarrow> init_failed e r'
      | None \<Rightarrow> r')"

text \<open>
  \<^verbatim>\<open>const params = { posterimage: posterImageUrl, autoplay: autoplay ? '1' : '0', ... };\<close>
  \<^verbatim>\<open>if (dashUrl) params.sources.DASH = dashUrl;\<close>
  \<^verbatim>\<open>if (hlsUrl) params.sources.HLS = hlsUrl;\<close>
  The flags are read from the block as it is once its id is settled.
\<close>

definition flag :: "bool \<Rightarrow> string" where
  "flag b = (if b then ''1'' else ''0'')"

definition make_params :: "block \<Rightarrow> url \<Rightarrow> string \<Rightarrow> params" where
  "make_params b videoURLObj assetIdPath =
     \<lparr>posterimage = posterImageUrl videoURLObj assetIdPath,
      autoplay = flag (autoplay_of b),
      loop = flag (loop_of b),
      muted = flag (muted_of b),
      hidecontrolbar = (if showControls_of b then ''0'' else ''1''),
      sources =
        (if dashUrl videoURLObj assetIdPath \<noteq> [] then [(''DASH'', dashUrl videoURLObj assetIdPath)] else [])
        @ (if hlsUrl videoURLObj assetIdPath \<noteq> [] then [(''HLS'', hlsUrl videoURLObj assetIdPath)] else [])\<rparr>"

text \<open>
  The wrapper and the mount element:
  \<^verbatim>\<open>wrapper.className = 'dm-video-player-wrapper';\<close>
  \<^verbatim>\<open>playerContainer.className = 'dm-video-player';\<close>
  \<^verbatim>\<open>playerContainer.id = `${block.id}-player`;\<close>
  \<^verbatim>\<open>wrapper.appendChild(playerContainer); block.appendChild(wrapper);\<close>
\<close>

definition player_wrapper :: "string \<Rightarrow> node" where
  "player_wrapper i =
     Element ''div'' [] [''dm-video-player-wrapper''] None
       [Element ''div'' [(''id'', i @ ''-player'')] [''dm-video-player''] None []]"

text \<open>
  Lines 177 to 297 of the source: everything after the link has matched and its URL has
  parsed. An exception of the chapters code leaves through the first branch: no handler
  encloses it.
\<close>

definition render ::
  "host \<Rightarrow> (ctor_args \<Rightarrow> js_error + viewer) \<Rightarrow> url \<Rightarrow> string \<Rightarrow> run \<Rightarrow> run" where
  "render h ctor videoURLObj assetIdPath r =
     (let r1 = ensure_id h r;
          config = make_params (blk r1) videoURLObj assetIdPath;
          (chapters, caught) = parse_chapters h (blk r1);
          r2 = warn_chapters caught r1;
          r3 = r2\<lparr>blk := (blk r2)\<lparr>kids := map hide_unless_ui (kids (blk r2))\<rparr>\<rparr>;
          r4 = appendChild (player_wrapper (block_id (blk r3))) r3
      in case chapters_ui chapters of
           Inl e \<Rightarrow> r4\<lparr>thrown := Some e\<rparr>
         | Inr chaptersContainer \<Rightarrow>
             (let r5 = (case chaptersContainer of None \<Rightarrow> r4 | Some c \<Rightarrow> appendChild c r4)
              in start_player ctor
                   \<lparr>containerId = block_id (blk r5) @ ''-player'', params = config\<rparr>
                   assetIdPath chaptersContainer r5))"

text \<open>
  Lines 158 to 175: the pattern is matched against the link's URL, then the URL is parsed.
  \<^verbatim>\<open>new URL(videoUrl)\<close> stands outside every \<^verbatim>\<open>try\<close>.
\<close>

definition decorate_link ::
  "host \<Rightarrow> (ctor_args \<Rightarrow> js_error + viewer) \<Rightarrow> string \<Rightarrow> run \<Rightarrow> run" where
  "decorate_link h ctor videoUrl r =
     (case urn_match videoUrl of
        None \<Rightarrow>
          set_marker ''error''
            (emit (ConsoleError ''Invalid Dynamic Media video URL format'' [StrArg videoUrl]) r)
      | Some assetIdPath \<Rightarrow>
          (case URL_new h videoUrl of
             Inl e \<Rightarrow> r\<lparr>thrown := Some e\<rparr>
           | Inr videoURLObj \<Rightarrow> render h ctor videoURLObj assetIdPath r))"

text \<open>\<^verbatim>\<open>videoLinks[0].href\<close>\<close>

definition link_href :: "host \<Rightarrow> node \<Rightarrow> string" where
  "link_href h a = href_of h (case map_of (attributes a) ''href'' of Some v \<Rightarrow> v | None \<Rightarrow> [])"

text \<open>
  The start of \<^verbatim>\<open>decorate\<close>: \<^verbatim>\<open>block.classList.add('dynamic-media-video')\<close> and the
  call \<^verbatim>\<open>loadDMVideoViewer()\<close>, whose promise is then awaited.
\<close>

definition start_run :: "block \<Rightarrow> module_state \<Rightarrow> run" where
  "start_run block m =
     \<lparr>thrown = None,
      blk = block\<lparr>classes := classList_add ''dynamic-media-video'' (classes block)\<rparr>,
      trace = [],
      modl = snd (loadDMVideoViewer m)\<rparr>"

text \<open>
  \<^verbatim>\<open>export default async function decorate(block)\<close>, on a block and the module's state.
\<close>

definition decorate :: "host \<Rightarrow> block \<Rightarrow> module_state \<Rightarrow> run" where
  "decorate h block m =
     (let r = start_run block m
      in case gate h of
           Some error \<Rightarrow>
             set_marker ''error''
               (emit (ConsoleError ''Failed to load DM VideoViewer:'' [ErrArg error]) r)
         | None \<Rightarrow>
             (case VideoViewer h of
                None \<Rightarrow>
                  set_marker ''error''
                    (emit (ConsoleError ''DM VideoViewer not available on window.dmviewers'' []) r)
              | Some ctor \<Rightarrow>
                  (case querySelectorAll_a_href (blk r) of
                     [] \<Rightarrow>
                       set_marker ''error''
                         (r\<lparr>blk := (blk r)\<lparr>kids := hide_children (kids (blk r))\<rparr>\<rparr>)
                   | a # others \<Rightarrow> decorate_link h ctor (link_href h a) r)))"

subsection \<open>Analytics events and milestones\<close>

text \<open>
  The page's side of analytics: \<^verbatim>\<open>window.adobeDataLayer\<close> when it is an array (\<open>None\<close>
  when it is missing or not an array), and what \<^verbatim>\<open>console.debug\<close> has received.
\<close>

datatype pvalue = PNum rat | PStr string

record analytics_record =
  event :: string
  info_type :: string
  info_assetPath :: string
  info_payload :: "(string \<times> pvalue) list"

record window =
  adobeDataLayer :: "analytics_record list option"
  console_debug :: "(string \<times> (string \<times> pvalue) list) list"

text \<open>
  \<^verbatim>\<open>function fireAnalyticsEvent(type, assetPath, payload = {}) {\<close>
  \<^verbatim>\<open>  if (window.adobeDataLayer && Array.isArray(window.adobeDataLayer)) {\<close>
  \<^verbatim>\<open>    window.adobeDataLayer.push({ event: 'videoInteraction',\<close>
  \<^verbatim>\<open>      eventInfo: { type, assetPath, ...payload } });\<close>
  \<^verbatim>\<open>  } else { console.debug('[DM Video Analytics]', type, payload); }\<close>
  \<^verbatim>\<open>}\<close>
\<close>

definition fireAnalyticsEvent ::
  "string \<Rightarrow> string \<Rightarrow> (string \<times> pvalue) list \<Rightarrow> window \<Rightarrow> window" where
  "fireAnalyticsEvent type assetPath payload w =
     (case adobeDataLayer w of
        Some layer \<Rightarrow>
          w\<lparr>adobeDataLayer :=
               Some (layer @ [\<lparr>event = ''videoInteraction'', info_type = type,
                                info_assetPath = assetPath, info_payload = payload\<rparr>])\<rparr>
      | None \<Rightarrow> w\<lparr>console_debug := console_debug w @ [(type, payload)]\<rparr>)"

text \<open>
  The events delivered so far, type and payload, whichever sink took them.
\<close>

definition delivered :: "window \<Rightarrow> (string \<times> (string \<times> pvalue) list) list" where
  "delivered w =
     (case adobeDataLayer w of
        Some layer \<Rightarrow> map (\<lambda>r. (info_type r, info_payload r)) layer
      | None \<Rightarrow> console_debug w)"

text \<open>
  The numbers a media element reports: a finite double is the rational it denotes. The
  thresholds 0.25, 0.5 and 0.75 and their products with 100 are doubles, so comparing with
  them and multiplying them by 100 is exact.
\<close>

datatype jsnum = NaN | PosInf | NegInf | Fin rat

text \<open>\<^verbatim>\<open>x || 0\<close> on a property that may be missing (\<open>None\<close>).\<close>

fun or_zero :: "jsnum option \<Rightarrow> jsnum" where
  "or_zero None = Fin 0"
| "or_zero (Some NaN) = Fin 0"
| "or_zero (Some x) = x"

text \<open>\<^verbatim>\<open>!x\<close> on a number\<close>

fun falsy :: "jsnum \<Rightarrow> bool" where
  "falsy NaN = True"
| "falsy (Fin x) = (x = 0)"
| "falsy x = False"

text \<open>\<^verbatim>\<open>progress >= m\<close>\<close>

fun num_ge :: "jsnum \<Rightarrow> rat \<Rightarrow> bool" where
  "num_ge (Fin x) m = (m \<le> x)"
| "num_ge PosInf m = True"
| "num_ge x m = False"

text \<open>
  What one \<^verbatim>\<open>timeupdate\<close> event finds on the player, and the state the handler closes
  over: the set \<^verbatim>\<open>hitMilestones\<close> of this call of \<^verbatim>\<open>setupAnalytics\<close>, and the window.
\<close>

record tick =
  duration :: "jsnum option"
  currentTime :: "jsnum option"

record session =
  hitMilestones :: "rat set"
  win :: window

definition milestones :: "rat list" where
  "milestones = [1 / 4, 1 / 2, 3 / 4]"

text \<open>
  \<^verbatim>\<open>milestones.forEach((m) => {\<close>
  \<^verbatim>\<open>  if (progress >= m && !hitMilestones.has(m)) {\<close>
  \<^verbatim>\<open>    hitMilestones.add(m);\<close>
  \<^verbatim>\<open>    fireAnalyticsEvent('milestone', assetIdPath, { milestone: m * 100 });\<close>
  \<^verbatim>\<open>  }\<close>
  \<^verbatim>\<open>});\<close>
\<close>

fun check_milestones :: "string \<Rightarrow> jsnum \<Rightarrow> rat list \<Rightarrow> session \<Rightarrow> session" where
  "check_milestones assetIdPath progress [] s = s"
| "check_milestones assetIdPath progress (m # ms) s =
     check_milestones assetIdPath progress ms
       (if num_ge progress m \<and> m \<notin> hitMilestones s
        then s\<lparr>hitMilestones := insert m (hitMilestones s),
               win := fireAnalyticsEvent ''milestone'' assetIdPath
                        [(''milestone'', PNum (m * 100))] (win s)\<rparr>
        else s)"

text \<open>
  \<^verbatim>\<open>player.addEventListener('timeupdate', () => {\<close>
  \<^verbatim>\<open>  const duration = player.duration || 0;\<close>
  \<^verbatim>\<open>  const currentTime = player.currentTime || 0;\<close>
  \<^verbatim>\<open>  if (!duration) return;\<close>
  \<^verbatim>\<open>  const progress = currentTime / duration;\<close>
  \<^verbatim>\<open>  milestones.forEach(...);\<close>
  \<^verbatim>\<open>});\<close>
  The division is the platform's, in double precision, with its rounding: it is the
  parameter \<open>divide_by\<close> of the handler, and what is proved of the handler holds for every
  division.
\<close>

definition on_timeupdate ::
  "(jsnum \<Rightarrow> jsnum \<Rightarrow> jsnum) \<Rightarrow> string \<Rightarrow> tick \<Rightarrow> session \<Rightarrow> session" where
  "on_timeupdate divide_by assetIdPath t s =
     (let d = or_zero (duration t); c = or_zero (currentTime t) in
      if falsy d then s
      else check_milestones assetIdPath (divide_by c d) milestones s)"

text \<open>A playback session: the ticks of one player, in order.\<close>

fun playback ::
  "(jsnum \<Rightarrow> jsnum \<Rightarrow> jsnum) \<Rightarrow> string \<Rightarrow> tick list \<Rightarrow> session \<Rightarrow> session" where
  "playback divide_by assetIdPath [] s = s"
| "playback divide_by assetIdPath (t # ts) s =
     playback divide_by assetIdPath ts (on_timeupdate divide_by assetIdPath t s)"

text \<open>The events delivered between two states of the window.\<close>

definition delivered_since :: "window \<Rightarrow> window \<Rightarrow> (string \<times> (string \<times> pvalue) list) list" where
  "delivered_since w w' = drop (length (delivered w)) (delivered w')"

definition milestone_event :: "rat \<Rightarrow> string \<times> (string \<times> pvalue) list" where
  "milestone_event m = (''milestone'', [(''milestone'', PNum (m * 100))])"

subsection \<open>Reading a run\<close>

text \<open>The arguments of the constructor calls of a run, and the values written to the marker.\<close>

fun constructor_call :: "effect \<Rightarrow> ctor_args list" where
  "constructor_call (New_VideoViewer args) = [args]"
| "constructor_call e = []"

definition constructed :: "run \<Rightarrow> ctor_args list" where
  "constructed r = concat (map constructor_call (trace r))"

fun marker_write :: "effect \<Rightarrow> string list" where
  "marker_write (SetAttribute name v) = (if name = ''data-video-loaded'' then [v] else [])"
| "marker_write e = []"

definition marker_writes :: "run \<Rightarrow> string list" where
  "marker_writes r = concat (map marker_write (trace r))"

text \<open>
  The exception that escapes from the body of the last \<^verbatim>\<open>try\<close>, as a function of the
  viewer alone: from the constructor, from \<^verbatim>\<open>init\<close>, or from the calls that
  \<^verbatim>\<open>setupAnalytics\<close> makes on the viewer and its player. Lemma
  \<open>thrown_construct_player\<close> below shows that it is the exception \<open>construct_player\<close>
  ends with.
\<close>

fun listener_error :: "media_player \<Rightarrow> string list \<Rightarrow> js_error option" where
  "listener_error player [] = None"
| "listener_error player (ev # evs) =
     (case addEventListener player ev of
        Some e \<Rightarrow> Some e
      | None \<Rightarrow> listener_error player evs)"

definition wiring_error :: "viewer \<Rightarrow> js_error option" where
  "wiring_error videoViewer =
     (case getMediaPlayer videoViewer of
        NotAFunction \<Rightarrow> None
      | Method (Inl e) \<Rightarrow> Some e
      | Method (Inr None) \<Rightarrow> None
      | Method (Inr (Some player)) \<Rightarrow>
          listener_error player [''play'', ''pause'', ''ended'', ''timeupdate''])"

definition construction_error :: "(ctor_args \<Rightarrow> js_error + viewer) \<Rightarrow> ctor_args \<Rightarrow> js_error option" where
  "construction_error ctor args =
     (case ctor args of
        Inl e \<Rightarrow> Some e
      | Inr videoViewer \<Rightarrow>
          (case init videoViewer of
             Some e \<Rightarrow> Some e
           | None \<Rightarrow> wiring_error videoViewer))"


subsection \<open>A sample page\<close>

text \<open>
  A host for concrete runs. Its URL parser reads absolute URLs of the shape
  \<^verbatim>\<open>scheme://[userinfo@]host[:port]...\<close> with a lower-case scheme and host, as the
  browser's does, and rejects a host with a space in it. Its \<^verbatim>\<open>JSON.parse\<close> is only
  ever applied to the texts \<^verbatim>\<open>null\<close> and \<^verbatim>\<open>{bad\<close>, of which the second is not
  JSON. Its viewer constructs, initialises and hands out a player that accepts every
  listener. An anchor's \<^verbatim>\<open>href\<close> property is its attribute, as it is for an absolute
  URL and for text that does not parse as a URL.
\<close>

definition sample_URL :: "string \<Rightarrow> js_error + url" where
  "sample_URL s =
     (let scheme = takeWhile (\<lambda>c. c \<noteq> CHR '':'') s;
          rest = drop (length scheme) s;
          authority = takeWhile (\<lambda>c. c \<notin> set ''/?#'') (drop 3 rest);
          hostport = rev (takeWhile (\<lambda>c. c \<noteq> CHR ''@'') (rev authority));
          host = takeWhile (\<lambda>c. c \<noteq> CHR '':'') hostport
      in if scheme \<noteq> [] \<and> take 3 rest = ''://'' \<and> host \<noteq> [] \<and> CHR '' '' \<notin> set host
         then Inr \<lparr>protocol = scheme @ '':'', hostname = host\<rparr>
         else Inl TypeError)"

definition sample_JSON :: "string \<Rightarrow> js_error + jsval" where
  "sample_JSON text =
     (if text = ''null'' then Inr JNull
      else if text = ''[]'' then Inr (JArr [])
      else Inl SyntaxError)"

definition sample_player :: media_player where
  "sample_player = \<lparr>addEventListener = (\<lambda>ev. None)\<rparr>"

definition sample_viewer :: viewer where
  "sample_viewer = \<lparr>init = None, getMediaPlayer = Method (Inr (Some sample_player))\<rparr>"

definition sample_host :: host where
  "sample_host =
     \<lparr>gate = None,
      VideoViewer = Some (\<lambda>args. Inr sample_viewer),
      URL_new = sample_URL,
      JSON_parse = sample_JSON,
      href_of = (\<lambda>v. v),
      Date_now = ''1700000000000'',
      Math_random = ''k3j9x2m1q''\<rparr>"

text \<open>A viewer whose \<^verbatim>\<open>getMediaPlayer\<close> throws, and a host that has it.\<close>

definition faulty_viewer :: viewer where
  "faulty_viewer = \<lparr>init = None, getMediaPlayer = Method (Inl (Error ''no player''))\<rparr>"

definition faulty_host :: host where
  "faulty_host = sample_host\<lparr>VideoViewer := Some (\<lambda>args. Inr faulty_viewer)\<rparr>"

text \<open>A host on which the viewer script never became ready.\<close>

definition timeout_host :: host where
  "timeout_host =
     sample_host\<lparr>gate := Some (Error ''DM VideoViewer failed to load within timeout'')\<rparr>"

text \<open>
  Blocks as the editor writes them: one row per field, the first holding the link.
\<close>

definition link_row :: "string \<Rightarrow> node" where
  "link_row href =
     Element ''div'' [] [] None
       [Element ''div'' [] [] None [Element ''a'' [(''href'', href)] [] None [Text href]]]"

definition text_row :: "string \<Rightarrow> node" where
  "text_row t =
     Element ''div'' [] [] None
       [Element ''div'' [] [] None [Element ''p'' [] [] None [Text t]]]"

definition video_block :: "(string \<times> string) list \<Rightarrow> string list \<Rightarrow> block" where
  "video_block data hrefs =
     \<lparr>attrs = data, classes = [''dynamic-media-video'', ''block''],
      kids = map link_row hrefs @ [text_row ''Demo'', text_row ''true'', text_row ''false'']\<rparr>"

definition sample_url :: string where
  "sample_url = ''https://host/adobe/assets/urn:x:y/as/file.ext''"

text \<open>The effects that register a listener.\<close>

fun is_listener :: "effect \<Rightarrow> bool" where
  "is_listener (AddEventListener t e) = True"
| "is_listener e = False"

text \<open>The arguments the constructor is called with, if it is called.\<close>

definition viewer_args :: "host \<Rightarrow> block \<Rightarrow> url \<Rightarrow> string \<Rightarrow> ctor_args" where
  "viewer_args h b u a =
     \<lparr>containerId = (if block_id b \<noteq> [] then block_id b
                       else ''dm-video-'' @ Date_now h @ ''-'' @ Math_random h) @ ''-player'',
      params = make_params b u a\<rparr>"

text \<open>The anchor of a link row.\<close>

definition anchor :: "string \<Rightarrow> node" where
  "anchor href = Element ''a'' [(''href'', href)] [] None [Text href]"

text \<open>A block whose chapters attribute is not JSON.\<close>

definition bad_chapters_block :: block where
  "bad_chapters_block = video_block [(''data-chapters'', ''{bad'')] [sample_url]"

text \<open>A block with two links, and a link with a port in its URL.\<close>

definition two_link_block :: block where
  "two_link_block = video_block [] [sample_url, ''https://other/adobe/assets/urn:z/as/b.mp4'']"

definition port_url :: string where
  "port_url = ''https://host:8443/adobe/assets/urn:x:y/as/file.ext''"

text \<open>
  A block whose \<^verbatim>\<open>data-autoplay\<close> attribute says \<^verbatim>\<open>false\<close> while its autoplay row
  says \<^verbatim>\<open>true\<close>, and one with a row for each flag and no data attribute.
\<close>

definition override_block :: block where
  "override_block = video_block [(''data-autoplay'', ''false'')] [sample_url]"

text \<open>
  A block whose chapters attribute is the JSON text \<^verbatim>\<open>null\<close>, and a link whose URL has
  the asset path and a host that no URL parser accepts.
\<close>

definition null_chapters_block :: block where
  "null_chapters_block = video_block [(''data-chapters'', ''null'')] [sample_url]"

definition unparsable_url :: string where
  "unparsable_url = ''https://exa mple.com/adobe/assets/urn:x:y/as/file.ext''"

text \<open>The thresholds that a tick with the given progress fires, given those already hit.\<close>

definition due :: "jsnum \<Rightarrow> rat set \<Rightarrow> rat list \<Rightarrow> rat list" where
  "due progress hit ms = filter (\<lambda>m. num_ge progress m \<and> m \<notin> hit) ms"

text \<open>
  Division without rounding. It is the double-precision quotient whenever that quotient is
  exact, as it is for the ticks used below: their duration is 64, or zero, where nothing
  is divided.
\<close>

fun exact_div :: "jsnum \<Rightarrow> jsnum \<Rightarrow> jsnum" where
  "exact_div (Fin a) (Fin b) =
     (if b = 0 then (if a = 0 then NaN else if 0 < a then PosInf else NegInf)
      else Fin (a / b))"
| "exact_div (Fin a) PosInf = Fin 0"
| "exact_div (Fin a) NegInf = Fin 0"
| "exact_div PosInf (Fin b) = (if 0 \<le> b then PosInf else NegInf)"
| "exact_div NegInf (Fin b) = (if 0 \<le> b then NegInf else PosInf)"
| "exact_div x y = NaN"

text \<open>A session on a page without a data layer, and ticks of a player.\<close>

definition quiet_session :: session where
  "quiet_session = \<lparr>hitMilestones = {}, win = \<lparr>adobeDataLayer = None, console_debug = []\<rparr>\<rparr>"

definition tick_at :: "rat \<Rightarrow> rat \<Rightarrow> tick" where
  "tick_at c d = \<lparr>duration = Some (Fin d), currentTime = Some (Fin c)\<rparr>"

section \<open>Properties\<close>

subsection \<open>Runs, step by step\<close>

lemma emit_simps [simp]:
  "thrown (emit e r) = thrown r" "blk (emit e r) = blk r"
  "trace (emit e r) = trace r @ [e]" "modl (emit e r) = modl r"
  by (simp_all add: emit_def)

lemma set_marker_simps [simp]:
  "thrown (set_marker v r) = thrown r"
  "trace (set_marker v r) = trace r @ [SetAttribute ''data-video-loaded'' v]"
  "modl (set_marker v r) = modl r"
  "kids (blk (set_marker v r)) = kids (blk r)"
  "classes (blk (set_marker v r)) = classes (blk r)"
  "attrs (blk (set_marker v r)) = AList.update ''data-video-loaded'' v (attrs (blk r))"
  by (simp_all add: set_marker_def block_setAttribute_def)

lemma marker_set_marker [simp]: "marker (set_marker v r) = Some v"
  by (simp add: marker_def update_conv')

lemma marker_emit [simp]: "marker (emit e r) = marker r"
  by (simp add: marker_def)

lemma marker_thrown_update [simp]: "marker (r\<lparr>thrown := x\<rparr>) = marker r"
  by (simp add: marker_def)

lemma appendChild_simps [simp]:
  "thrown (appendChild n r) = thrown r" "trace (appendChild n r) = trace r"
  "modl (appendChild n r) = modl r" "kids (blk (appendChild n r)) = kids (blk r) @ [n]"
  "attrs (blk (appendChild n r)) = attrs (blk r)" "classes (blk (appendChild n r)) = classes (blk r)"
  by (simp_all add: appendChild_def)

lemma marker_appendChild [simp]: "marker (appendChild n r) = marker r"
  by (simp add: marker_def)

lemma ensure_id_simps [simp]:
  "thrown (ensure_id h r) = thrown r" "trace (ensure_id h r) = trace r"
  "modl (ensure_id h r) = modl r" "kids (blk (ensure_id h r)) = kids (blk r)"
  "classes (blk (ensure_id h r)) = classes (blk r)"
  by (simp_all add: ensure_id_def Let_def)

lemma warn_chapters_simps [simp]:
  "thrown (warn_chapters c r) = thrown r" "blk (warn_chapters c r) = blk r"
  "modl (warn_chapters c r) = modl r"
  by (simp_all add: warn_chapters_def split: option.splits)

lemma add_listeners_simps [simp]:
  "blk (add_listeners p evs r) = blk r" "modl (add_listeners p evs r) = modl r"
  by (induction p evs r rule: add_listeners.induct; simp split: option.splits)+

lemma thrown_add_listeners:
  "thrown (add_listeners p evs r) = (case listener_error p evs of Some e \<Rightarrow> Some e | None \<Rightarrow> thrown r)"
  by (induction p evs r rule: add_listeners.induct) (simp_all split: option.splits)

lemma trace_add_listeners:
  "\<exists>ls. trace (add_listeners p evs r) = trace r @ ls \<and> (\<forall>e\<in>set ls. is_listener e)"
proof (induction p evs r rule: add_listeners.induct)
  case (1 player r)
  then show ?case by simp
next
  case (2 player ev evs r)
  show ?case
  proof (cases "addEventListener player ev")
    case None
    with 2 obtain ls where "trace (add_listeners player evs (emit (AddEventListener ''player'' ev) r))
        = trace (emit (AddEventListener ''player'' ev) r) @ ls" "\<forall>e\<in>set ls. is_listener e"
      by blast
    with None show ?thesis
      by (intro exI[of _ "AddEventListener ''player'' ev # ls"]) simp
  next
    case (Some e)
    then show ?thesis by simp
  qed
qed

lemma setupAnalytics_simps [simp]:
  "blk (setupAnalytics v a c r) = blk r" "modl (setupAnalytics v a c r) = modl r"
  by (simp_all add: setupAnalytics_def Let_def split: accessor.splits sum.splits option.splits)

lemma thrown_setupAnalytics:
  "thrown (setupAnalytics v a c r) = (case wiring_error v of Some e \<Rightarrow> Some e | None \<Rightarrow> thrown r)"
  by (simp add: setupAnalytics_def wiring_error_def Let_def thrown_add_listeners
      split: accessor.splits sum.splits option.splits)

lemma trace_setupAnalytics:
  "\<exists>ls. trace (setupAnalytics v a c r) = trace r @ ls \<and> (\<forall>e\<in>set ls. is_listener e)"
proof -
  have listeners: "\<exists>ls. trace (if thrown r1 \<noteq> None then r1
          else if c \<noteq> None then emit (AddEventListener ''chaptersContainer'' ''click'') r1 else r1)
        = trace r @ ls \<and> (\<forall>e\<in>set ls. is_listener e)"
    if "r1 = add_listeners p [''play'', ''pause'', ''ended'', ''timeupdate''] r" for r1 p
  proof -
    from trace_add_listeners[of p "[''play'', ''pause'', ''ended'', ''timeupdate'']" r] that
    obtain ls where ls: "trace r1 = trace r @ ls" "\<forall>e\<in>set ls. is_listener e" by blast
    show ?thesis
    proof (cases "thrown r1 = None \<and> c \<noteq> None")
      case True
      with ls show ?thesis
        by (intro exI[of _ "ls @ [AddEventListener ''chaptersContainer'' ''click'']"]) simp
    next
      case False
      with ls show ?thesis by (intro exI[of _ ls]) auto
    qed
  qed
  show ?thesis
  proof (cases "getMediaPlayer v")
    case NotAFunction
    then show ?thesis by (simp add: setupAnalytics_def)
  next
    case (Method x)
    show ?thesis
    proof (cases x)
      case (Inl e)
      with Method show ?thesis by (simp add: setupAnalytics_def)
    next
      case (Inr po)
      show ?thesis
      proof (cases po)
        case None
        with Method Inr show ?thesis by (simp add: setupAnalytics_def)
      next
        case (Some p)
        with Method Inr listeners[OF refl, of p] show ?thesis
          by (simp add: setupAnalytics_def Let_def del: add_listeners.simps)
      qed
    qed
  qed
qed

lemma listener_no_ctor: "is_listener e \<Longrightarrow> constructor_call e = [] \<and> marker_write e = []"
  by (cases e) simp_all


lemma listeners_silent:
  "\<forall>e\<in>set ls. is_listener e \<Longrightarrow>
     concat (map constructor_call ls) = [] \<and> concat (map marker_write ls) = []"
  by (induction ls) (auto simp: listener_no_ctor)

lemma init_failed_simps [simp]:
  "thrown (init_failed e r) = None"
  "trace (init_failed e r) = trace r @ [ConsoleError ''Failed to initialize DM VideoViewer'' [ErrArg e],
     SetAttribute ''data-video-loaded'' ''error'']"
  "modl (init_failed e r) = modl r"
  "kids (blk (init_failed e r)) = kids (blk r)"
  "classes (blk (init_failed e r)) = classes (blk r)"
  "marker (init_failed e r) = Some ''error''"
  by (simp_all add: init_failed_def)

lemma thrown_construct_player:
  "thrown r = None \<Longrightarrow> thrown (construct_player ctor args a c r) = construction_error ctor args"
  by (simp add: construct_player_def construction_error_def Let_def thrown_setupAnalytics
      split: sum.splits option.splits)

lemma construct_player_frame [simp]:
  "kids (blk (construct_player ctor args a c r)) = kids (blk r)"
  "classes (blk (construct_player ctor args a c r)) = classes (blk r)"
  "modl (construct_player ctor args a c r) = modl r"
  by (simp_all add: construct_player_def Let_def split: sum.splits option.splits)

lemma start_player_frame [simp]:
  "kids (blk (start_player ctor args a c r)) = kids (blk r)"
  "classes (blk (start_player ctor args a c r)) = classes (blk r)"
  "modl (start_player ctor args a c r) = modl r"
  by (simp_all add: start_player_def Let_def split: option.splits)

lemma thrown_start_player [simp]:
  "thrown (start_player ctor args a c r) = None"
  by (simp add: start_player_def Let_def split: option.splits)

lemma marker_construct_player:
  "thrown r = None \<Longrightarrow> construction_error ctor args = None \<Longrightarrow>
     marker (construct_player ctor args a c r) = Some ''true''"
  by (auto simp: construct_player_def construction_error_def Let_def thrown_setupAnalytics
      split: sum.splits option.splits)

lemma marker_start_player:
  assumes "thrown r = None"
  shows "marker (start_player ctor args a c r) =
           Some (if construction_error ctor args = None then ''true'' else ''error'')"
  using thrown_construct_player[OF assms, of ctor args a c] marker_construct_player[OF assms, of ctor args a c]
  by (auto simp: start_player_def Let_def split: option.splits)

lemma trace_construct_player:
  assumes "thrown r = None"
  shows "\<exists>rest. trace (construct_player ctor args a c r) =
            trace r @ SetAttribute ''data-video-loaded'' ''loading'' # New_VideoViewer args # rest
          \<and> concat (map constructor_call rest) = []
          \<and> concat (map marker_write rest) = (if construction_error ctor args = None then [''true''] else [])"
proof (cases "ctor args")
  case (Inl e)
  then show ?thesis by (simp add: construct_player_def construction_error_def)
next
  case (Inr v)
  show ?thesis
  proof (cases "init v")
    case (Some e)
    with Inr show ?thesis
      by (intro exI[of _ "[Viewer_init]"]) (simp add: construct_player_def construction_error_def)
  next
    case None
    let ?r2 = "emit Viewer_init (emit (New_VideoViewer args) (set_marker ''loading'' r))"
    from trace_setupAnalytics[of v a c ?r2] obtain ls where
      ls: "trace (setupAnalytics v a c ?r2) = trace ?r2 @ ls" "\<forall>e\<in>set ls. is_listener e" by blast
    note silent = listeners_silent[OF ls(2)]
    have th: "thrown (setupAnalytics v a c ?r2) = wiring_error v"
      using assms by (simp add: thrown_setupAnalytics split: option.splits)
    show ?thesis
    proof (cases "wiring_error v")
      case None': None
      with Inr None ls silent th show ?thesis
        by (intro exI[of _ "Viewer_init # ls @ [SetAttribute ''data-video-loaded'' ''true'']"])
           (simp add: construct_player_def construction_error_def Let_def)
    next
      case (Some e)
      with Inr None ls silent th show ?thesis
        by (intro exI[of _ "Viewer_init # ls"])
           (simp add: construct_player_def construction_error_def Let_def)
    qed
  qed
qed

lemma trace_start_player:
  assumes "thrown r = None"
  shows "\<exists>rest. trace (start_player ctor args a c r) =
            trace r @ SetAttribute ''data-video-loaded'' ''loading'' # New_VideoViewer args # rest
          \<and> concat (map constructor_call rest) = []
          \<and> concat (map marker_write rest) = [if construction_error ctor args = None then ''true'' else ''error'']"
proof -
  from trace_construct_player[OF assms, of ctor args a c] obtain rest where
    rest: "trace (construct_player ctor args a c r) =
            trace r @ SetAttribute ''data-video-loaded'' ''loading'' # New_VideoViewer args # rest"
      "concat (map constructor_call rest) = []"
      "concat (map marker_write rest) = (if construction_error ctor args = None then [''true''] else [])"
    by blast
  note th = thrown_construct_player[OF assms, of ctor args a c]
  show ?thesis
  proof (cases "construction_error ctor args")
    case None
    with rest th show ?thesis by (intro exI[of _ rest]) (simp add: start_player_def Let_def)
  next
    case (Some e)
    with rest th show ?thesis
      by (intro exI[of _ "rest @ [ConsoleError ''Failed to initialize DM VideoViewer'' [ErrArg e],
            SetAttribute ''data-video-loaded'' ''error'']"]) (simp add: start_player_def Let_def)
  qed
qed


lemma dataset_frame [simp]:
  "dataset (b\<lparr>classes := cs\<rparr>) x = dataset b x"
  "dataset (b\<lparr>kids := ks\<rparr>) x = dataset b x"
  "dataset (b\<lparr>attrs := AList.update ''id'' i (attrs b)\<rparr>) x = dataset b x"
  by (simp_all add: dataset_def update_conv')

lemma getTextFromRow_frame [simp]:
  "getTextFromRow (b\<lparr>classes := cs\<rparr>) n = getTextFromRow b n"
  "getTextFromRow (b\<lparr>attrs := al\<rparr>) n = getTextFromRow b n"
  by (simp_all add: getTextFromRow_def)

lemma getBool_frame [simp]:
  "getBoolFromDataOrRow (b\<lparr>classes := cs\<rparr>) x n d = getBoolFromDataOrRow b x n d"
  "getBoolFromDataOrRow (b\<lparr>attrs := AList.update ''id'' i (attrs b)\<rparr>) x n d = getBoolFromDataOrRow b x n d"
  by (simp_all add: getBoolFromDataOrRow_def Let_def split: option.splits)

lemma make_params_frame [simp]:
  "make_params (b\<lparr>classes := cs\<rparr>) u a = make_params b u a"
  "make_params (b\<lparr>attrs := AList.update ''id'' i (attrs b)\<rparr>) u a = make_params b u a"
  by (simp_all add: make_params_def autoplay_of_def loop_of_def muted_of_def showControls_of_def)

lemma parse_chapters_frame [simp]:
  "parse_chapters h (b\<lparr>classes := cs\<rparr>) = parse_chapters h b"
  "parse_chapters h (b\<lparr>attrs := AList.update ''id'' i (attrs b)\<rparr>) = parse_chapters h b"
  by (simp_all add: parse_chapters_def)

lemma links_frame [simp]:
  "querySelectorAll_a_href (b\<lparr>classes := cs\<rparr>) = querySelectorAll_a_href b"
  by (simp add: querySelectorAll_a_href_def)

lemma blk_ensure_id:
  "blk (ensure_id h r) = (blk r)\<lparr>attrs := AList.update ''id''
      (if block_id (blk r) \<noteq> [] then block_id (blk r) else ''dm-video-'' @ Date_now h @ ''-'' @ Math_random h)
      (attrs (blk r))\<rparr>"
  by (simp add: ensure_id_def Let_def)

lemma block_id_frame [simp]:
  "block_id (b\<lparr>kids := ks\<rparr>) = block_id b"
  "block_id (b\<lparr>classes := cs\<rparr>) = block_id b"
  by (simp_all add: block_id_def)

lemma block_id_blk [simp]:
  "block_id (blk (appendChild n r)) = block_id (blk r)"
  by (simp add: block_id_def)

lemma block_id_ensure_id:
  "block_id (blk (ensure_id h r)) =
     (if block_id (blk r) \<noteq> [] then block_id (blk r) else ''dm-video-'' @ Date_now h @ ''-'' @ Math_random h)"
  by (simp add: ensure_id_def Let_def block_id_def update_conv')

lemma render_throw:
  assumes "chapters_ui (fst (parse_chapters h (blk r))) = Inl e"
  shows "thrown (render h ctor u a r) = Some e
       \<and> trace (render h ctor u a r) = trace (warn_chapters (snd (parse_chapters h (blk r))) r)
       \<and> marker (render h ctor u a r) = marker r"
proof -
  obtain ch w where pc: "parse_chapters h (blk r) = (ch, w)" by force
  with assms have ui: "chapters_ui ch = Inl e" by simp
  have pc': "parse_chapters h (blk (ensure_id h r)) = (ch, w)"
    using pc by (simp add: blk_ensure_id)
  show ?thesis
    using ui by (simp add: render_def Let_def pc pc' marker_def warn_chapters_def blk_ensure_id update_conv'
        split: option.splits)
qed

lemma render_start:
  assumes "chapters_ui (fst (parse_chapters h (blk r))) = Inr c"
  shows "\<exists>r5. render h ctor u a r = start_player ctor (viewer_args h (blk r) u a) a c r5
           \<and> thrown r5 = thrown r
           \<and> trace r5 = trace (warn_chapters (snd (parse_chapters h (blk r))) r)
           \<and> modl r5 = modl r
           \<and> kids (blk r5) = map hide_unless_ui (kids (blk r))
                @ [player_wrapper (block_id (blk (ensure_id h r)))]
                @ (case c of None \<Rightarrow> [] | Some n \<Rightarrow> [n])"
proof -
  obtain ch w where pc: "parse_chapters h (blk r) = (ch, w)" by force
  with assms have ui: "chapters_ui ch = Inr c" by simp
  have pc': "parse_chapters h (blk (ensure_id h r)) = (ch, w)"
    using pc by (simp add: blk_ensure_id)
  let ?r2 = "warn_chapters w (ensure_id h r)"
  let ?r3 = "?r2\<lparr>blk := (blk ?r2)\<lparr>kids := map hide_unless_ui (kids (blk ?r2))\<rparr>\<rparr>"
  let ?r4 = "appendChild (player_wrapper (block_id (blk ?r3))) ?r3"
  let ?r5 = "case c of None \<Rightarrow> ?r4 | Some n \<Rightarrow> appendChild n ?r4"
  have id5: "block_id (blk ?r5) = block_id (blk (ensure_id h r))"
    by (cases c) simp_all
  have args: "\<lparr>containerId = block_id (blk ?r5) @ ''-player'',
               params = make_params (blk (ensure_id h r)) u a\<rparr> = viewer_args h (blk r) u a"
    by (simp add: id5 viewer_args_def block_id_ensure_id) (simp add: blk_ensure_id)
  have eq: "render h ctor u a r = start_player ctor (viewer_args h (blk r) u a) a c ?r5"
    using ui args by (simp add: render_def Let_def pc')
  have tr: "trace ?r5 = trace (warn_chapters w r)"
    by (cases c) (simp_all add: warn_chapters_def split: option.splits)
  have rest: "thrown ?r5 = thrown r" "modl ?r5 = modl r"
    "kids (blk ?r5) = map hide_unless_ui (kids (blk r))
                @ [player_wrapper (block_id (blk (ensure_id h r)))]
                @ (case c of None \<Rightarrow> [] | Some n \<Rightarrow> [n])"
    by (cases c; simp)+
  from eq tr rest pc show ?thesis by (intro exI[of _ ?r5]) simp
qed


lemma start_run_simps [simp]:
  "thrown (start_run b m) = None" "trace (start_run b m) = []"
  "modl (start_run b m) = snd (loadDMVideoViewer m)"
  "kids (blk (start_run b m)) = kids b" "attrs (blk (start_run b m)) = attrs b"
  "querySelectorAll_a_href (blk (start_run b m)) = querySelectorAll_a_href b"
  "parse_chapters h (blk (start_run b m)) = parse_chapters h b"
  "marker (start_run b m) = map_of (attrs b) ''data-video-loaded''"
  by (simp_all add: start_run_def marker_def)

lemma viewer_args_start_run [simp]:
  "viewer_args h (blk (start_run b m)) u a = viewer_args h b u a"
  by (simp add: viewer_args_def start_run_def)

lemma block_id_start_run [simp]:
  "block_id (blk (ensure_id h (start_run b m))) =
     (if block_id b \<noteq> [] then block_id b else ''dm-video-'' @ Date_now h @ ''-'' @ Math_random h)"
  by (simp add: block_id_ensure_id) (simp add: start_run_def)

lemma trace_warn_chapters:
  "trace (warn_chapters w r) = trace r @
     (case w of None \<Rightarrow> [] | Some e \<Rightarrow> [ConsoleWarn ''Invalid chapters JSON on dm-video block'' [ErrArg e]])"
  by (simp add: warn_chapters_def split: option.splits)

lemma decorate_cases [case_names gate viewer nolinks badurl urlthrow chapthrow started]:
  obtains
    e where "gate h = Some e"
      "decorate h b m = set_marker ''error''
         (emit (ConsoleError ''Failed to load DM VideoViewer:'' [ErrArg e]) (start_run b m))"
  | "gate h = None" "VideoViewer h = None"
      "decorate h b m = set_marker ''error''
         (emit (ConsoleError ''DM VideoViewer not available on window.dmviewers'' []) (start_run b m))"
  | ctor where "gate h = None" "VideoViewer h = Some ctor" "querySelectorAll_a_href b = []"
      "decorate h b m = set_marker ''error''
         ((start_run b m)\<lparr>blk := (blk (start_run b m))\<lparr>kids := hide_children (kids b)\<rparr>\<rparr>)"
  | ctor a others where "gate h = None" "VideoViewer h = Some ctor"
      "querySelectorAll_a_href b = a # others" "urn_match (link_href h a) = None"
      "decorate h b m = set_marker ''error''
         (emit (ConsoleError ''Invalid Dynamic Media video URL format'' [StrArg (link_href h a)])
           (start_run b m))"
  | ctor a others p e where "gate h = None" "VideoViewer h = Some ctor"
      "querySelectorAll_a_href b = a # others" "urn_match (link_href h a) = Some p"
      "URL_new h (link_href h a) = Inl e"
      "decorate h b m = (start_run b m)\<lparr>thrown := Some e\<rparr>"
  | ctor a others p u e where "gate h = None" "VideoViewer h = Some ctor"
      "querySelectorAll_a_href b = a # others" "urn_match (link_href h a) = Some p"
      "URL_new h (link_href h a) = Inr u"
      "chapters_ui (fst (parse_chapters h b)) = Inl e"
      "thrown (decorate h b m) = Some e"
      "trace (decorate h b m) =
         (case snd (parse_chapters h b) of None \<Rightarrow> []
          | Some e \<Rightarrow> [ConsoleWarn ''Invalid chapters JSON on dm-video block'' [ErrArg e]])"
      "marker (decorate h b m) = map_of (attrs b) ''data-video-loaded''"
  | ctor a others p u c r5 where "gate h = None" "VideoViewer h = Some ctor"
      "querySelectorAll_a_href b = a # others" "urn_match (link_href h a) = Some p"
      "URL_new h (link_href h a) = Inr u"
      "chapters_ui (fst (parse_chapters h b)) = Inr c"
      "decorate h b m = start_player ctor (viewer_args h b u p) p c r5"
      "thrown r5 = None"
      "trace r5 =
         (case snd (parse_chapters h b) of None \<Rightarrow> []
          | Some e \<Rightarrow> [ConsoleWarn ''Invalid chapters JSON on dm-video block'' [ErrArg e]])"
      "modl r5 = snd (loadDMVideoViewer m)"
      "kids (blk r5) = map hide_unless_ui (kids b)
         @ [player_wrapper (if block_id b \<noteq> [] then block_id b
                            else ''dm-video-'' @ Date_now h @ ''-'' @ Math_random h)]
         @ (case c of None \<Rightarrow> [] | Some n \<Rightarrow> [n])"
proof -
  have unfold: "decorate h b m =
     (case gate h of
           Some error \<Rightarrow>
             set_marker ''error''
               (emit (ConsoleError ''Failed to load DM VideoViewer:'' [ErrArg error]) (start_run b m))
         | None \<Rightarrow>
             (case VideoViewer h of
                None \<Rightarrow>
                  set_marker ''error''
                    (emit (ConsoleError ''DM VideoViewer not available on window.dmviewers'' []) (start_run b m))
              | Some ctor \<Rightarrow>
                  (case querySelectorAll_a_href b of
                     [] \<Rightarrow>
                       set_marker ''error''
                         ((start_run b m)\<lparr>blk := (blk (start_run b m))\<lparr>kids := hide_children (kids b)\<rparr>\<rparr>)
                   | a # others \<Rightarrow> decorate_link h ctor (link_href h a) (start_run b m))))"
    by (simp add: decorate_def Let_def split: option.splits list.splits)
  show thesis
  proof (cases "gate h")
    case (Some e)
    with unfold that(1) show thesis by simp
  next
    case None
    note g = this
    show thesis
    proof (cases "VideoViewer h")
      case None
      with unfold g that(2) show thesis by simp
    next
      case (Some ctor)
      note v = this
      show thesis
      proof (cases "querySelectorAll_a_href b")
        case Nil
        with unfold g v that(3) show thesis by simp
      next
        case (Cons a others)
        note l = this
        have dl: "decorate h b m = decorate_link h ctor (link_href h a) (start_run b m)"
          using unfold g v l by simp
        show thesis
        proof (cases "urn_match (link_href h a)")
          case None
          with dl g v l that(4) show thesis by (simp add: decorate_link_def)
        next
          case (Some p)
          note um = this
          show thesis
          proof (cases "URL_new h (link_href h a)")
            case (Inl e)
            with dl g v l um that(5) show thesis by (simp add: decorate_link_def)
          next
            case (Inr u)
            note un = this
            have dr: "decorate h b m = render h ctor u p (start_run b m)"
              using dl um un by (simp add: decorate_link_def)
            show thesis
            proof (cases "chapters_ui (fst (parse_chapters h b))")
              case (Inl e)
              then have "chapters_ui (fst (parse_chapters h (blk (start_run b m)))) = Inl e" by simp
              from render_throw[OF this, of ctor u p] dr g v l um un Inl that(6)
              show thesis by (simp add: trace_warn_chapters)
            next
              case (Inr c)
              then have "chapters_ui (fst (parse_chapters h (blk (start_run b m)))) = Inr c" by simp
              from render_start[OF this, of ctor u p] obtain r5 where
                "render h ctor u p (start_run b m) = start_player ctor (viewer_args h b u p) p c r5"
                "thrown r5 = None"
                "trace r5 = trace (warn_chapters (snd (parse_chapters h b)) (start_run b m))"
                "modl r5 = snd (loadDMVideoViewer m)"
                "kids (blk r5) = map hide_unless_ui (kids b)
                   @ [player_wrapper (block_id (blk (ensure_id h (start_run b m))))]
                   @ (case c of None \<Rightarrow> [] | Some n \<Rightarrow> [n])"
                by auto
              with dr g v l um un Inr that(7)[of ctor a others p u c r5]
              show thesis by (simp add: trace_warn_chapters)
            qed
          qed
        qed
      qed
    qed
  qed
qed

subsection \<open>The pattern\<close>


lemma urn_here_shape:
  assumes "urn_here s = Some m"
  shows "\<exists>lit x xs rest. m = lit @ x # xs \<and> s = m @ rest \<and> toLowerCase lit = urn_literal
           \<and> CHR ''/'' \<notin> set (x # xs) \<and> (rest = [] \<or> hd rest = CHR ''/'')"
proof -
  let ?run = "takeWhile (\<lambda>c. c \<noteq> CHR ''/'') (drop 18 s)"
  let ?rest = "dropWhile (\<lambda>c. c \<noteq> CHR ''/'') (drop 18 s)"
  from assms have lit: "toLowerCase (take 18 s) = urn_literal" and ne: "?run \<noteq> []"
    and m: "m = take 18 s @ ?run"
    by (auto simp: urn_here_def Let_def split: if_splits)
  from ne obtain x xs where run: "?run = x # xs" by (cases ?run) auto
  have s: "s = m @ ?rest" by (simp add: m)
  have noslash: "CHR ''/'' \<notin> set ?run" by (auto dest: set_takeWhileD)
  have rest: "?rest = [] \<or> hd ?rest = CHR ''/''"
    using hd_dropWhile[of "\<lambda>c. c \<noteq> CHR ''/''" "drop 18 s"] by auto
  from m run s lit noslash rest show ?thesis by metis
qed

lemma urn_exec_shape:
  "urn_exec s = Some (before, m) \<Longrightarrow>
     \<exists>lit x xs rest. m = lit @ x # xs \<and> s = before @ m @ rest \<and> toLowerCase lit = urn_literal
           \<and> CHR ''/'' \<notin> set (x # xs) \<and> (rest = [] \<or> hd rest = CHR ''/'')"
proof (induction s arbitrary: before)
  case Nil
  then show ?case by simp
next
  case (Cons c cs)
  show ?case
  proof (cases "urn_here (c # cs)")
    case (Some m')
    with Cons.prems have "before = []" "m' = m" by auto
    with Some have "urn_here (c # cs) = Some m" by simp
    from urn_here_shape[OF this] \<open>before = []\<close> show ?thesis by simp
  next
    case None
    with Cons.prems obtain b where b: "urn_exec cs = Some (b, m)" "before = c # b"
      by (auto split: option.splits)
    from Cons.IH[OF b(1)] b(2) show ?thesis by auto
  qed
qed




subsection \<open>Whole runs\<close>

lemma started_run:
  assumes r: "r = start_player ctor args p c r5" and t: "thrown r5 = None"
    and w: "trace r5 = (case w of None \<Rightarrow> []
              | Some e \<Rightarrow> [ConsoleWarn ''Invalid chapters JSON on dm-video block'' [ErrArg e]])"
  shows "thrown r = None"
    and "constructed r = [args]"
    and "marker_writes r = [''loading'', if construction_error ctor args = None then ''true'' else ''error'']"
    and "marker r = Some (if construction_error ctor args = None then ''true'' else ''error'')"
    and "\<exists>rest. trace r = trace r5 @ SetAttribute ''data-video-loaded'' ''loading'' # New_VideoViewer args # rest"
proof -
  from trace_start_player[OF t, of ctor args p c] obtain rest where
    rest: "trace r = trace r5 @ SetAttribute ''data-video-loaded'' ''loading'' # New_VideoViewer args # rest"
      "concat (map constructor_call rest) = []"
      "concat (map marker_write rest) = [if construction_error ctor args = None then ''true'' else ''error'']"
    unfolding r by blast
  have quiet: "concat (map constructor_call (trace r5)) = []" "concat (map marker_write (trace r5)) = []"
    by (cases w; simp add: w)+
  show "thrown r = None" by (simp add: r)
  show "constructed r = [args]" by (simp add: constructed_def rest quiet)
  show "marker_writes r = [''loading'', if construction_error ctor args = None then ''true'' else ''error'']"
    by (simp add: marker_writes_def rest quiet)
  show "marker r = Some (if construction_error ctor args = None then ''true'' else ''error'')"
    unfolding r by (rule marker_start_player[OF t])
  from rest(1) show "\<exists>rest. trace r = trace r5 @ SetAttribute ''data-video-loaded'' ''loading'' # New_VideoViewer args # rest"
    by blast
qed

lemma constructed_simps [simp]:
  "constructed (emit (ConsoleError s xs) r) = constructed r"
  "constructed (set_marker v r) = constructed r"
  "constructed (start_run b m) = []"
  "constructed (r\<lparr>thrown := x\<rparr>) = constructed r"
  "constructed (r\<lparr>blk := y\<rparr>) = constructed r"
  by (simp_all add: constructed_def)

lemma marker_blk_kids [simp]: "marker (r\<lparr>blk := (blk r)\<lparr>kids := ks\<rparr>\<rparr>) = marker r"
  by (simp add: marker_def)

text \<open>The runs that call the constructor.\<close>

lemma decorate_constructs:
  assumes "constructed (decorate h b m) \<noteq> []"
  obtains ctor a others p u c r5 where "gate h = None" "VideoViewer h = Some ctor"
      "querySelectorAll_a_href b = a # others" "urn_match (link_href h a) = Some p"
      "URL_new h (link_href h a) = Inr u"
      "chapters_ui (fst (parse_chapters h b)) = Inr c"
      "decorate h b m = start_player ctor (viewer_args h b u p) p c r5"
      "thrown r5 = None"
      "trace r5 =
         (case snd (parse_chapters h b) of None \<Rightarrow> []
          | Some e \<Rightarrow> [ConsoleWarn ''Invalid chapters JSON on dm-video block'' [ErrArg e]])"
proof (cases h b m rule: decorate_cases)
  case (gate e)
  with assms show ?thesis by simp
next
  case viewer
  with assms show ?thesis by simp
next
  case (nolinks ctor)
  with assms show ?thesis by simp
next
  case (badurl ctor a others)
  with assms show ?thesis by simp
next
  case (urlthrow ctor a others p e)
  with assms show ?thesis by simp
next
  case (chapthrow ctor a others p u e)
  then have "constructed (decorate h b m) = []"
    by (cases "snd (parse_chapters h b)") (simp_all add: constructed_def)
  with assms show ?thesis by simp
next
  case (started ctor a others p u c r5)
  from that[OF this(1-9)] show ?thesis .
qed

subsection \<open>The sample page, evaluated\<close>

lemma sample_host_fields [simp]:
  "gate sample_host = None"
  "VideoViewer sample_host = Some (\<lambda>args. Inr sample_viewer)"
  "URL_new sample_host = sample_URL"
  "JSON_parse sample_host = sample_JSON"
  "href_of sample_host = (\<lambda>v. v)"
  "Date_now sample_host = ''1700000000000''"
  "Math_random sample_host = ''k3j9x2m1q''"
  by (simp_all add: sample_host_def)

lemma faulty_host_fields [simp]:
  "gate faulty_host = None"
  "VideoViewer faulty_host = Some (\<lambda>args. Inr faulty_viewer)"
  "URL_new faulty_host = sample_URL"
  "JSON_parse faulty_host = sample_JSON"
  "href_of faulty_host = (\<lambda>v. v)"
  "Date_now faulty_host = ''1700000000000''"
  "Math_random faulty_host = ''k3j9x2m1q''"
  by (simp_all add: faulty_host_def)

lemma timeout_host_fields [simp]:
  "gate timeout_host = Some (Error ''DM VideoViewer failed to load within timeout'')"
  by (simp add: timeout_host_def)

lemma links_video_block [simp]:
  "querySelectorAll_a_href (video_block d hs) = map anchor hs"
  by (induction hs) (simp_all add: querySelectorAll_a_href_def video_block_def descendants_def
      link_row_def text_row_def is_link_def anchor_def)

lemma video_block_fields [simp]:
  "attrs (video_block d hs) = d"
  "kids (video_block d hs) = map link_row hs @ [text_row ''Demo'', text_row ''true'', text_row ''false'']"
  by (simp_all add: video_block_def)

lemma link_href_anchor [simp]:
  "link_href sample_host (anchor u) = u" "link_href faulty_host (anchor u) = u"
  by (simp_all add: link_href_def anchor_def)

lemma urn_exec_sample [simp]:
  "urn_exec sample_url = Some (''https://host'', ''/adobe/assets/urn:x:y'')"
  by (simp add: sample_url_def urn_here_def toLowerCase_def lower_char_def urn_literal_def)

lemma urn_match_sample [simp]: "urn_match sample_url = Some ''/adobe/assets/urn:x:y''"
  by (simp add: urn_match_def)

lemma sample_URL_sample [simp]:
  "sample_URL sample_url = Inr \<lparr>protocol = ''https:'', hostname = ''host''\<rparr>"
  by (simp add: sample_url_def sample_URL_def Let_def)

lemma block_id_video_block [simp]: "block_id (video_block [] hs) = []"
  by (simp add: block_id_def)

lemma rows_video_block:
  "getTextFromRow (video_block d [u]) 2 = ''true''"
  "getTextFromRow (video_block d [u]) 3 = ''false''"
  "getTextFromRow (video_block d [u]) 4 = []"
  by (simp_all add: getTextFromRow_def children_of_def link_row_def text_row_def querySelector_def
      descendants_def trim_def is_space_def)

lemma flags_video_block:
  "autoplay_of (video_block [] [u])" "\<not> loop_of (video_block [] [u])"
  "\<not> muted_of (video_block [] [u])" "showControls_of (video_block [] [u])"
  by (simp_all add: autoplay_of_def loop_of_def muted_of_def showControls_of_def
      getBoolFromDataOrRow_def dataset_def rows_video_block toLowerCase_def lower_char_def)

lemma sample_args:
  "viewer_args sample_host (video_block [] [u]) \<lparr>protocol = ''https:'', hostname = ''host''\<rparr>
     ''/adobe/assets/urn:x:y'' =
   \<lparr>containerId = ''dm-video-1700000000000-k3j9x2m1q-player'',
    params = \<lparr>posterimage = ''https://host/adobe/assets/urn:x:y/as/thumbnail.jpeg?preferwebp=true'',
              autoplay = ''1'', loop = ''0'', muted = ''0'', hidecontrolbar = ''0'',
              sources = [(''DASH'', ''https://host/adobe/assets/urn:x:y/manifest.mpd''),
                         (''HLS'', ''https://host/adobe/assets/urn:x:y/manifest.m3u8'')]\<rparr>\<rparr>"
  by (simp add: viewer_args_def make_params_def flags_video_block flag_def posterImageUrl_def
      dashUrl_def hlsUrl_def baseUrl_def)

subsection \<open>Blocks without a usable link\<close>

lemma hide_children_hidden:
  "\<forall>c\<in>set (children_of (hide_children ks)). style_display c = Some ''none''"
proof (induction ks)
  case Nil
  then show ?case by (simp add: children_of_def hide_children_def)
next
  case (Cons k ks)
  then show ?case by (cases k) (simp_all add: children_of_def hide_children_def)
qed



text \<open>
  C7, as the code has it. A block without links always ends with the marker at
  \<^verbatim>\<open>error\<close>, no constructor call and no exception. Its children are hidden when the
  run gets as far as looking for links, that is, when the awaited gate is fulfilled and
  the viewer's constructor is on the global scope; the run then does nothing else than
  hide them and set the marker.
\<close>

theorem linkless_block_is_error:
  assumes "querySelectorAll_a_href b = []"
  shows "marker (decorate h b m) = Some ''error''
       \<and> constructed (decorate h b m) = []
       \<and> thrown (decorate h b m) = None
       \<and> (gate h = None \<and> VideoViewer h \<noteq> None \<longrightarrow>
            kids (blk (decorate h b m)) = hide_children (kids b)
          \<and> (\<forall>c\<in>set (children_of (kids (blk (decorate h b m)))). style_display c = Some ''none'')
          \<and> trace (decorate h b m) = [SetAttribute ''data-video-loaded'' ''error''])"
proof (cases h b m rule: decorate_cases)
  case (gate e)
  then show ?thesis by simp
next
  case viewer
  then show ?thesis by simp
next
  case (nolinks ctor)
  then show ?thesis using hide_children_hidden[of "kids b"] by simp
next
  case (badurl ctor a' others')
  with assms show ?thesis by simp
next
  case (urlthrow ctor a' others' p e)
  with assms show ?thesis by simp
next
  case (chapthrow ctor a' others' p u e)
  with assms show ?thesis by simp
next
  case (started ctor a' others' p u c r5)
  with assms show ?thesis by simp
qed

theorem linkless_block_is_error_witness:
  "querySelectorAll_a_href (video_block [] []) = []
   \<and> gate sample_host = None \<and> VideoViewer sample_host \<noteq> None
   \<and> marker (decorate sample_host (video_block [] []) fresh_module) = Some ''error''
   \<and> constructed (decorate sample_host (video_block [] []) fresh_module) = []
   \<and> thrown (decorate sample_host (video_block [] []) fresh_module) = None
   \<and> map style_display (kids (blk (decorate sample_host (video_block [] []) fresh_module)))
       = [Some ''none'', Some ''none'', Some ''none'']
   \<and> trace (decorate sample_host (video_block [] []) fresh_module)
       = [SetAttribute ''data-video-loaded'' ''error'']"
proof -
  have l: "querySelectorAll_a_href (video_block [] []) = []" by simp
  from linkless_block_is_error[OF l, of sample_host fresh_module] show ?thesis
    by (simp add: hide_children_def text_row_def)
qed

text \<open>
  C7 as stated fails: when the script did not become ready, the run returns before it
  looks for links, and the children of a block without links stay as they were.
\<close>

theorem linkless_block_not_hidden_counterexample:
  "querySelectorAll_a_href (video_block [] []) = []
   \<and> kids (blk (decorate timeout_host (video_block [] []) fresh_module)) = kids (video_block [] [])
   \<and> map style_display (kids (blk (decorate timeout_host (video_block [] []) fresh_module)))
       = [None, None, None]
   \<and> marker (decorate timeout_host (video_block [] []) fresh_module) = Some ''error''"
proof (cases timeout_host "video_block [] []" fresh_module rule: decorate_cases)
  case (gate e)
  then show ?thesis by (simp add: text_row_def)
qed simp_all

subsection \<open>Runs that get past the link\<close>

lemma decorate_started:
  assumes "gate h = None" "VideoViewer h = Some ctor" "querySelectorAll_a_href b = a # others"
    and "urn_match (link_href h a) = Some p" "URL_new h (link_href h a) = Inr u"
    and "chapters_ui (fst (parse_chapters h b)) = Inr c"
  shows "thrown (decorate h b m) = None"
    and "constructed (decorate h b m) = [viewer_args h b u p]"
    and "marker_writes (decorate h b m) =
           [''loading'', if construction_error ctor (viewer_args h b u p) = None then ''true'' else ''error'']"
    and "marker (decorate h b m) =
           Some (if construction_error ctor (viewer_args h b u p) = None then ''true'' else ''error'')"
    and "\<exists>rest. trace (decorate h b m) =
           (case snd (parse_chapters h b) of None \<Rightarrow> []
            | Some e \<Rightarrow> [ConsoleWarn ''Invalid chapters JSON on dm-video block'' [ErrArg e]])
           @ SetAttribute ''data-video-loaded'' ''loading'' # New_VideoViewer (viewer_args h b u p) # rest"
    and "kids (blk (decorate h b m)) = map hide_unless_ui (kids b)
           @ [player_wrapper (if block_id b \<noteq> [] then block_id b
                              else ''dm-video-'' @ Date_now h @ ''-'' @ Math_random h)]
           @ (case c of None \<Rightarrow> [] | Some n \<Rightarrow> [n])"
proof -
  have "\<exists>r5. decorate h b m = start_player ctor (viewer_args h b u p) p c r5 \<and> thrown r5 = None
          \<and> trace r5 = (case snd (parse_chapters h b) of None \<Rightarrow> []
               | Some e \<Rightarrow> [ConsoleWarn ''Invalid chapters JSON on dm-video block'' [ErrArg e]])
          \<and> kids (blk r5) = map hide_unless_ui (kids b)
               @ [player_wrapper (if block_id b \<noteq> [] then block_id b
                                  else ''dm-video-'' @ Date_now h @ ''-'' @ Math_random h)]
               @ (case c of None \<Rightarrow> [] | Some n \<Rightarrow> [n])"
  proof (cases h b m rule: decorate_cases)
    case (started ctor' a' others' p' u' c' r5)
    with assms show ?thesis by auto
  qed (use assms in simp_all)
  then obtain r5 where r5: "decorate h b m = start_player ctor (viewer_args h b u p) p c r5"
      "thrown r5 = None"
      "trace r5 = (case snd (parse_chapters h b) of None \<Rightarrow> []
               | Some e \<Rightarrow> [ConsoleWarn ''Invalid chapters JSON on dm-video block'' [ErrArg e]])"
      "kids (blk r5) = map hide_unless_ui (kids b)
               @ [player_wrapper (if block_id b \<noteq> [] then block_id b
                                  else ''dm-video-'' @ Date_now h @ ''-'' @ Math_random h)]
               @ (case c of None \<Rightarrow> [] | Some n \<Rightarrow> [n])"
    by blast
  note s = started_run[OF r5(1) r5(2) r5(3)]
  show "thrown (decorate h b m) = None" by (rule s(1))
  show "constructed (decorate h b m) = [viewer_args h b u p]" by (rule s(2))
  show "marker_writes (decorate h b m) =
           [''loading'', if construction_error ctor (viewer_args h b u p) = None then ''true'' else ''error'']"
    by (rule s(3))
  show "marker (decorate h b m) =
           Some (if construction_error ctor (viewer_args h b u p) = None then ''true'' else ''error'')"
    by (rule s(4))
  from s(5) r5(3) show "\<exists>rest. trace (decorate h b m) =
           (case snd (parse_chapters h b) of None \<Rightarrow> []
            | Some e \<Rightarrow> [ConsoleWarn ''Invalid chapters JSON on dm-video block'' [ErrArg e]])
           @ SetAttribute ''data-video-loaded'' ''loading'' # New_VideoViewer (viewer_args h b u p) # rest"
    by simp
  show "kids (blk (decorate h b m)) = map hide_unless_ui (kids b)
           @ [player_wrapper (if block_id b \<noteq> [] then block_id b
                              else ''dm-video-'' @ Date_now h @ ''-'' @ Math_random h)]
           @ (case c of None \<Rightarrow> [] | Some n \<Rightarrow> [n])"
    by (simp add: r5(1) r5(4))
qed

lemma decorate_chapters_throw:
  assumes "gate h = None" "VideoViewer h = Some ctor" "querySelectorAll_a_href b = a # others"
    and "urn_match (link_href h a) = Some p" "URL_new h (link_href h a) = Inr u"
    and "chapters_ui (fst (parse_chapters h b)) = Inl e"
  shows "thrown (decorate h b m) = Some e"
    and "marker (decorate h b m) = map_of (attrs b) ''data-video-loaded''"
    and "marker_writes (decorate h b m) = []"
    and "constructed (decorate h b m) = []"
proof -
  have "thrown (decorate h b m) = Some e
      \<and> marker (decorate h b m) = map_of (attrs b) ''data-video-loaded''
      \<and> trace (decorate h b m) = (case snd (parse_chapters h b) of None \<Rightarrow> []
               | Some e \<Rightarrow> [ConsoleWarn ''Invalid chapters JSON on dm-video block'' [ErrArg e]])"
  proof (cases h b m rule: decorate_cases)
    case (chapthrow ctor' a' others' p' u' e')
    with assms show ?thesis by auto
  qed (use assms in simp_all)
  then show "thrown (decorate h b m) = Some e"
    and "marker (decorate h b m) = map_of (attrs b) ''data-video-loaded''"
    and "marker_writes (decorate h b m) = []"
    and "constructed (decorate h b m) = []"
    by (cases "snd (parse_chapters h b)"; simp add: marker_writes_def constructed_def)+
qed

lemma decorate_url_throw:
  assumes "gate h = None" "VideoViewer h = Some ctor" "querySelectorAll_a_href b = a # others"
    and "urn_match (link_href h a) = Some p" "URL_new h (link_href h a) = Inl e"
  shows "thrown (decorate h b m) = Some e"
    and "marker (decorate h b m) = map_of (attrs b) ''data-video-loaded''"
    and "trace (decorate h b m) = []"
proof -
  have "decorate h b m = (start_run b m)\<lparr>thrown := Some e\<rparr>"
  proof (cases h b m rule: decorate_cases)
    case (urlthrow ctor' a' others' p' e')
    with assms show ?thesis by auto
  qed (use assms in simp_all)
  then show "thrown (decorate h b m) = Some e"
    and "marker (decorate h b m) = map_of (attrs b) ''data-video-loaded''"
    and "trace (decorate h b m) = []"
    by simp_all
qed

lemma viewer_args_urls:
  "posterimage (params (viewer_args h b u p)) =
     protocol u @ ''//'' @ hostname u @ p @ ''/as/thumbnail.jpeg?preferwebp=true''"
  "sources (params (viewer_args h b u p)) =
     [(''DASH'', protocol u @ ''//'' @ hostname u @ p @ ''/manifest.mpd''),
      (''HLS'', protocol u @ ''//'' @ hostname u @ p @ ''/manifest.m3u8'')]"
  by (simp_all add: viewer_args_def make_params_def posterImageUrl_def dashUrl_def hlsUrl_def baseUrl_def)

lemma viewer_args_flags:
  "autoplay (params (viewer_args h b u p)) = flag (autoplay_of b)"
  "loop (params (viewer_args h b u p)) = flag (loop_of b)"
  "muted (params (viewer_args h b u p)) = flag (muted_of b)"
  "hidecontrolbar (params (viewer_args h b u p)) = (if showControls_of b then ''0'' else ''1'')"
  by (simp_all add: viewer_args_def make_params_def)

lemma sample_viewer_sound [simp]:
  "construction_error (\<lambda>args. Inr sample_viewer) args = None"
  by (simp add: construction_error_def wiring_error_def sample_viewer_def sample_player_def)

lemma faulty_viewer_unsound [simp]:
  "construction_error (\<lambda>args. Inr faulty_viewer) args = Some (Error ''no player'')"
  by (simp add: construction_error_def wiring_error_def faulty_viewer_def)

lemma no_chapters_sample [simp]:
  "parse_chapters h (video_block [] hs) = (JArr [], None)"
  by (simp add: parse_chapters_def dataset_def)

subsection \<open>The marker protocol\<close>

text \<open>
  C6, as the code has it. A run that calls the viewer's constructor has written
  \<^verbatim>\<open>loading\<close> to the marker just before the call and nothing to it earlier; it ends
  without an exception, and its second and last write to the marker is \<^verbatim>\<open>true\<close> when
  the constructor, \<^verbatim>\<open>init\<close> and the analytics wiring (\<^verbatim>\<open>getMediaPlayer\<close> and the
  \<^verbatim>\<open>addEventListener\<close> calls of \<^verbatim>\<open>setupAnalytics\<close>) all return, and \<^verbatim>\<open>error\<close> when
  any of them throws.
\<close>

theorem marker_protocol:
  assumes "constructed (decorate h b m) \<noteq> []"
  shows "\<exists>ctor args pre rest.
           VideoViewer h = Some ctor
         \<and> constructed (decorate h b m) = [args]
         \<and> trace (decorate h b m) =
             pre @ SetAttribute ''data-video-loaded'' ''loading'' # New_VideoViewer args # rest
         \<and> concat (map marker_write pre) = []
         \<and> thrown (decorate h b m) = None
         \<and> marker_writes (decorate h b m) =
             [''loading'', if construction_error ctor args = None then ''true'' else ''error'']
         \<and> marker (decorate h b m) =
             Some (if construction_error ctor args = None then ''true'' else ''error'')"
proof -
  from assms obtain ctor a others p u c r5 where
    run: "VideoViewer h = Some ctor"
      "decorate h b m = start_player ctor (viewer_args h b u p) p c r5"
      "thrown r5 = None"
      "trace r5 =
         (case snd (parse_chapters h b) of None \<Rightarrow> []
          | Some e \<Rightarrow> [ConsoleWarn ''Invalid chapters JSON on dm-video block'' [ErrArg e]])"
    by (rule decorate_constructs)
  note s = started_run[OF run(2) run(3) run(4)]
  from s(5) obtain rest where rest: "trace (decorate h b m) =
      trace r5 @ SetAttribute ''data-video-loaded'' ''loading'' # New_VideoViewer (viewer_args h b u p) # rest"
    by blast
  have quiet: "concat (map marker_write (trace r5)) = []"
    by (cases "snd (parse_chapters h b)") (simp_all add: run(4))
  from run(1) s(1-4) rest quiet show ?thesis by blast
qed

theorem marker_protocol_witness:
  "constructed (decorate sample_host (video_block [] [sample_url]) fresh_module) \<noteq> []
   \<and> marker_writes (decorate sample_host (video_block [] [sample_url]) fresh_module) = [''loading'', ''true'']
   \<and> marker (decorate sample_host (video_block [] [sample_url]) fresh_module) = Some ''true''
   \<and> thrown (decorate sample_host (video_block [] [sample_url]) fresh_module) = None"
proof -
  have c: "constructed (decorate sample_host (video_block [] [sample_url]) fresh_module) \<noteq> []"
    by (subst decorate_started(2)[where ctor = "\<lambda>args. Inr sample_viewer" and a = "anchor sample_url"
          and others = "[]" and p = "''/adobe/assets/urn:x:y''"
          and u = "\<lparr>protocol = ''https:'', hostname = ''host''\<rparr>" and c = None]) simp_all
  from marker_protocol[OF c] show ?thesis using c by auto
qed

text \<open>
  C6 as stated fails: the constructor returns a viewer and \<^verbatim>\<open>init\<close> returns, yet the
  marker ends at \<^verbatim>\<open>error\<close>, because \<^verbatim>\<open>getMediaPlayer\<close>, called by \<^verbatim>\<open>setupAnalytics\<close>
  inside the same \<^verbatim>\<open>try\<close>, throws.
\<close>

theorem marker_error_after_init_counterexample:
  "VideoViewer faulty_host = Some (\<lambda>args. Inr faulty_viewer)
   \<and> init faulty_viewer = None
   \<and> constructed (decorate faulty_host (video_block [] [sample_url]) fresh_module) =
       [viewer_args faulty_host (video_block [] [sample_url])
          \<lparr>protocol = ''https:'', hostname = ''host''\<rparr> ''/adobe/assets/urn:x:y'']
   \<and> marker_writes (decorate faulty_host (video_block [] [sample_url]) fresh_module) = [''loading'', ''error'']
   \<and> marker (decorate faulty_host (video_block [] [sample_url]) fresh_module) = Some ''error''"
proof -
  note d = decorate_started[where h = faulty_host and b = "video_block [] [sample_url]"
      and ctor = "\<lambda>args. Inr faulty_viewer" and a = "anchor sample_url"
      and others = "[]" and p = "''/adobe/assets/urn:x:y''"
      and u = "\<lparr>protocol = ''https:'', hostname = ''host''\<rparr>" and c = None and m = fresh_module]
  have "init faulty_viewer = None" by (simp add: faulty_viewer_def)
  moreover have "constructed (decorate faulty_host (video_block [] [sample_url]) fresh_module) =
       [viewer_args faulty_host (video_block [] [sample_url])
          \<lparr>protocol = ''https:'', hostname = ''host''\<rparr> ''/adobe/assets/urn:x:y'']"
    by (rule d(2)) simp_all
  moreover have "marker_writes (decorate faulty_host (video_block [] [sample_url]) fresh_module) = [''loading'', ''error'']"
    by (subst d(3)) simp_all
  moreover have "marker (decorate faulty_host (video_block [] [sample_url]) fresh_module) = Some ''error''"
    by (subst d(4)) simp_all
  ultimately show ?thesis by simp
qed

subsection \<open>Malformed chapters\<close>

text \<open>
  C9, as the code has it. On a block with a valid video link (the pattern matches the
  first link's URL and the URL parses), once the script is ready, a \<^verbatim>\<open>data-chapters\<close>
  text that \<^verbatim>\<open>JSON.parse\<close> rejects gives the empty chapter list; the block gets the
  player wrapper and no chapters container; no exception leaves \<^verbatim>\<open>decorate\<close>; the
  constructor is called; and the marker ends at \<^verbatim>\<open>true\<close> when the constructor,
  \<^verbatim>\<open>init\<close> and the analytics wiring of \<^verbatim>\<open>setupAnalytics\<close> all return, and at
  \<^verbatim>\<open>error\<close> only when one of them throws: the malformed chapters never cause it.
\<close>

theorem malformed_chapters_nonfatal:
  assumes "gate h = None" "VideoViewer h = Some ctor"
    and "querySelectorAll_a_href b = a # others"
    and "urn_match (link_href h a) = Some p" "URL_new h (link_href h a) = Inr u"
    and "dataset b ''chapters'' = Some raw" "JSON_parse h raw = Inl e"
  shows "fst (parse_chapters h b) = JArr []
       \<and> chapters_ui (fst (parse_chapters h b)) = Inr None
       \<and> kids (blk (decorate h b m)) = map hide_unless_ui (kids b)
           @ [player_wrapper (if block_id b \<noteq> [] then block_id b
                              else ''dm-video-'' @ Date_now h @ ''-'' @ Math_random h)]
       \<and> thrown (decorate h b m) = None
       \<and> constructed (decorate h b m) = [viewer_args h b u p]
       \<and> marker (decorate h b m) =
           Some (if construction_error ctor (viewer_args h b u p) = None then ''true'' else ''error'')
       \<and> (construction_error ctor (viewer_args h b u p) = None \<longrightarrow>
            marker (decorate h b m) = Some ''true'')"
proof -
  from assms(6,7) have pc: "fst (parse_chapters h b) = JArr []"
    by (simp add: parse_chapters_def)
  then have ui: "chapters_ui (fst (parse_chapters h b)) = Inr None" by simp
  note d = decorate_started[OF assms(1-5) ui, of m]
  from pc ui d(1,2,4,6) show ?thesis by simp
qed

theorem malformed_chapters_nonfatal_witness:
  "dataset bad_chapters_block ''chapters'' = Some ''{bad''
   \<and> JSON_parse sample_host ''{bad'' = Inl SyntaxError
   \<and> fst (parse_chapters sample_host bad_chapters_block) = JArr []
   \<and> length (kids (blk (decorate sample_host bad_chapters_block fresh_module)))
       = Suc (length (kids bad_chapters_block))
   \<and> last (kids (blk (decorate sample_host bad_chapters_block fresh_module)))
       = player_wrapper ''dm-video-1700000000000-k3j9x2m1q''
   \<and> thrown (decorate sample_host bad_chapters_block fresh_module) = None
   \<and> marker (decorate sample_host bad_chapters_block fresh_module) = Some ''true''"
proof -
  have 1: "dataset bad_chapters_block ''chapters'' = Some ''{bad''"
    by (simp add: bad_chapters_block_def dataset_def)
  have 2: "JSON_parse sample_host ''{bad'' = Inl SyntaxError"
    by (simp add: sample_JSON_def)
  have 3: "querySelectorAll_a_href bad_chapters_block = anchor sample_url # []"
    by (simp add: bad_chapters_block_def)
  have 4: "block_id bad_chapters_block = []"
    by (simp add: bad_chapters_block_def block_id_def)
  from malformed_chapters_nonfatal[where h = sample_host and b = bad_chapters_block
      and ctor = "\<lambda>args. Inr sample_viewer" and a = "anchor sample_url" and others = "[]"
      and p = "''/adobe/assets/urn:x:y''" and u = "\<lparr>protocol = ''https:'', hostname = ''host''\<rparr>"
      and raw = "''{bad''" and e = SyntaxError and m = fresh_module, OF _ _ 3 _ _ 1 2]
  show ?thesis using 1 2 4 by simp
qed

text \<open>
  C9 as stated fails on "true assuming player construction succeeds": the chapters are
  malformed, the constructor returns a viewer and \<^verbatim>\<open>init\<close> returns, yet the marker ends
  at \<^verbatim>\<open>error\<close>, because \<^verbatim>\<open>getMediaPlayer\<close>, called by \<^verbatim>\<open>setupAnalytics\<close> inside the
  same \<^verbatim>\<open>try\<close>, throws.
\<close>

theorem malformed_chapters_marker_error_counterexample:
  "dataset bad_chapters_block ''chapters'' = Some ''{bad''
   \<and> JSON_parse faulty_host ''{bad'' = Inl SyntaxError
   \<and> fst (parse_chapters faulty_host bad_chapters_block) = JArr []
   \<and> VideoViewer faulty_host = Some (\<lambda>args. Inr faulty_viewer)
   \<and> init faulty_viewer = None
   \<and> constructed (decorate faulty_host bad_chapters_block fresh_module) =
       [viewer_args faulty_host bad_chapters_block
          \<lparr>protocol = ''https:'', hostname = ''host''\<rparr> ''/adobe/assets/urn:x:y'']
   \<and> thrown (decorate faulty_host bad_chapters_block fresh_module) = None
   \<and> marker (decorate faulty_host bad_chapters_block fresh_module) = Some ''error''"
proof -
  have 1: "dataset bad_chapters_block ''chapters'' = Some ''{bad''"
    by (simp add: bad_chapters_block_def dataset_def)
  have 2: "JSON_parse faulty_host ''{bad'' = Inl SyntaxError"
    by (simp add: sample_JSON_def)
  from 1 2 have 3: "fst (parse_chapters faulty_host bad_chapters_block) = JArr []"
    by (simp add: parse_chapters_def)
  then have ui: "chapters_ui (fst (parse_chapters faulty_host bad_chapters_block)) = Inr None"
    by simp
  have l: "querySelectorAll_a_href bad_chapters_block = anchor sample_url # []"
    by (simp add: bad_chapters_block_def)
  note d = decorate_started[where h = faulty_host and b = bad_chapters_block
      and ctor = "\<lambda>args. Inr faulty_viewer" and a = "anchor sample_url"
      and others = "[]" and p = "''/adobe/assets/urn:x:y''"
      and u = "\<lparr>protocol = ''https:'', hostname = ''host''\<rparr>" and c = None and m = fresh_module,
      OF _ _ l _ _ ui]
  have 4: "init faulty_viewer = None" by (simp add: faulty_viewer_def)
  have 5: "constructed (decorate faulty_host bad_chapters_block fresh_module) =
       [viewer_args faulty_host bad_chapters_block
          \<lparr>protocol = ''https:'', hostname = ''host''\<rparr> ''/adobe/assets/urn:x:y'']"
    by (rule d(2)) simp_all
  have 6: "thrown (decorate faulty_host bad_chapters_block fresh_module) = None"
    by (rule d(1)) simp_all
  have 7: "marker (decorate faulty_host bad_chapters_block fresh_module) = Some ''error''"
    by (subst d(4)) simp_all
  from 1 2 3 4 5 6 7 show ?thesis by simp
qed

subsection \<open>The source URL\<close>

text \<open>
  C10. In a block with links, the first link in document order is the video source: it
  stands before every other link among the block's descendants; whenever the constructor
  is called, the pattern has matched the URL of that link, the URL has parsed, and the
  poster and the two stream URLs passed to the constructor are derived from that match and
  that URL; and when the first link's URL does not match, the run ends in \<^verbatim>\<open>error\<close>
  without constructing anything, whatever the other links are.
\<close>

theorem first_link_is_source:
  assumes "querySelectorAll_a_href b = a # others"
  shows "(\<exists>pre post. descendants (kids b) = pre @ a # post \<and> (\<forall>e\<in>set pre. \<not> is_link e) \<and> is_link a)
       \<and> (\<forall>args\<in>set (constructed (decorate h b m)).
            \<exists>p u. urn_match (link_href h a) = Some p \<and> URL_new h (link_href h a) = Inr u
                 \<and> posterimage (params args) = posterImageUrl u p
                 \<and> sources (params args) = [(''DASH'', dashUrl u p), (''HLS'', hlsUrl u p)])
       \<and> (urn_match (link_href h a) = None \<longrightarrow>
            marker (decorate h b m) = Some ''error'' \<and> constructed (decorate h b m) = [])"
proof -
  from assms have "filter is_link (descendants (kids b)) = a # others"
    by (simp add: querySelectorAll_a_href_def)
  then have first: "\<exists>pre post. descendants (kids b) = pre @ a # post \<and> (\<forall>e\<in>set pre. \<not> is_link e) \<and> is_link a"
    by (auto simp: filter_eq_Cons_iff)
  have src: "\<forall>args\<in>set (constructed (decorate h b m)).
            \<exists>p u. urn_match (link_href h a) = Some p \<and> URL_new h (link_href h a) = Inr u
                 \<and> posterimage (params args) = posterImageUrl u p
                 \<and> sources (params args) = [(''DASH'', dashUrl u p), (''HLS'', hlsUrl u p)]"
  proof (cases "constructed (decorate h b m) = []")
    case True
    then show ?thesis by simp
  next
    case False
    then obtain ctor a' others' p u c r5 where
      run: "querySelectorAll_a_href b = a' # others'" "urn_match (link_href h a') = Some p"
        "URL_new h (link_href h a') = Inr u"
        "decorate h b m = start_player ctor (viewer_args h b u p) p c r5"
        "thrown r5 = None"
        "trace r5 =
           (case snd (parse_chapters h b) of None \<Rightarrow> []
            | Some e \<Rightarrow> [ConsoleWarn ''Invalid chapters JSON on dm-video block'' [ErrArg e]])"
      by (rule decorate_constructs)
    from run(1) assms have "a' = a" by simp
    moreover note started_run(2)[OF run(4) run(5) run(6)]
    ultimately show ?thesis
      using run(2,3)
      by (simp add: viewer_args_def make_params_def posterImageUrl_def dashUrl_def hlsUrl_def baseUrl_def)
  qed
  have bad: "urn_match (link_href h a) = None \<longrightarrow>
            marker (decorate h b m) = Some ''error'' \<and> constructed (decorate h b m) = []"
  proof (cases h b m rule: decorate_cases)
    case (badurl ctor a' others')
    then show ?thesis by simp
  qed (use assms in auto)
  from first src bad show ?thesis by blast
qed

theorem first_link_is_source_witness:
  "querySelectorAll_a_href two_link_block
     = anchor sample_url # [anchor ''https://other/adobe/assets/urn:z/as/b.mp4'']
   \<and> map (sources \<circ> params) (constructed (decorate sample_host two_link_block fresh_module))
       = [[(''DASH'', ''https://host/adobe/assets/urn:x:y/manifest.mpd''),
           (''HLS'', ''https://host/adobe/assets/urn:x:y/manifest.m3u8'')]]
   \<and> map (posterimage \<circ> params) (constructed (decorate sample_host two_link_block fresh_module))
       = [''https://host/adobe/assets/urn:x:y/as/thumbnail.jpeg?preferwebp=true'']"
proof -
  have l: "querySelectorAll_a_href two_link_block
     = anchor sample_url # [anchor ''https://other/adobe/assets/urn:z/as/b.mp4'']"
    by (simp add: two_link_block_def)
  have c: "constructed (decorate sample_host two_link_block fresh_module) =
      [viewer_args sample_host two_link_block \<lparr>protocol = ''https:'', hostname = ''host''\<rparr>
         ''/adobe/assets/urn:x:y'']"
    by (rule decorate_started(2)[where ctor = "\<lambda>args. Inr sample_viewer" and a = "anchor sample_url"
          and others = "[anchor ''https://other/adobe/assets/urn:z/as/b.mp4'']" and c = None])
       (simp_all add: two_link_block_def)
  from first_link_is_source[OF l, of sample_host fresh_module] l c show ?thesis
    by (simp add: posterImageUrl_def dashUrl_def hlsUrl_def baseUrl_def)
qed

text \<open>
  C1, as the code has it. Let the pattern match the URL of the block's first link, with
  \<open>before\<close> the text in front of the match and \<open>assetIdPath\<close> the match, and let the
  URL parse to \<open>u\<close>. Then the URL is \<open>before\<close>, the match and a rest; the match is the
  literal \<^verbatim>\<open>/adobe/assets/urn:\<close> in some letter case followed by one or more characters
  that are not slashes, and the rest is empty or starts with a slash. Every constructor
  call receives as poster, DASH and HLS URLs the text
  \<^verbatim>\<open>protocol + '//' + hostname\<close> of \<open>u\<close>, then the match, then the fixed suffix. When
  the text in front of the match is exactly \<^verbatim>\<open>protocol + '//' + hostname\<close>, that is
  everything in front of the match.
\<close>

theorem derived_urls:
  assumes "querySelectorAll_a_href b = a # others"
    and "urn_exec (link_href h a) = Some (before, assetIdPath)"
    and "URL_new h (link_href h a) = Inr u"
  shows "(\<exists>lit x xs rest. assetIdPath = lit @ x # xs \<and> link_href h a = before @ assetIdPath @ rest
            \<and> toLowerCase lit = urn_literal \<and> CHR ''/'' \<notin> set (x # xs)
            \<and> (rest = [] \<or> hd rest = CHR ''/''))
       \<and> (\<forall>args\<in>set (constructed (decorate h b m)).
             posterimage (params args) =
               protocol u @ ''//'' @ hostname u @ assetIdPath @ ''/as/thumbnail.jpeg?preferwebp=true''
           \<and> sources (params args) =
               [(''DASH'', protocol u @ ''//'' @ hostname u @ assetIdPath @ ''/manifest.mpd''),
                (''HLS'', protocol u @ ''//'' @ hostname u @ assetIdPath @ ''/manifest.m3u8'')])
       \<and> (before = protocol u @ ''//'' @ hostname u \<longrightarrow>
            (\<forall>args\<in>set (constructed (decorate h b m)).
               posterimage (params args) = before @ assetIdPath @ ''/as/thumbnail.jpeg?preferwebp=true''
             \<and> sources (params args) =
                 [(''DASH'', before @ assetIdPath @ ''/manifest.mpd''),
                  (''HLS'', before @ assetIdPath @ ''/manifest.m3u8'')]))"
proof -
  note shape = urn_exec_shape[OF assms(2)]
  from assms(2) have um: "urn_match (link_href h a) = Some assetIdPath"
    by (simp add: urn_match_def)
  have urls: "\<forall>args\<in>set (constructed (decorate h b m)).
             posterimage (params args) =
               protocol u @ ''//'' @ hostname u @ assetIdPath @ ''/as/thumbnail.jpeg?preferwebp=true''
           \<and> sources (params args) =
               [(''DASH'', protocol u @ ''//'' @ hostname u @ assetIdPath @ ''/manifest.mpd''),
                (''HLS'', protocol u @ ''//'' @ hostname u @ assetIdPath @ ''/manifest.m3u8'')]"
  proof (cases "constructed (decorate h b m) = []")
    case True
    then show ?thesis by simp
  next
    case False
    then obtain ctor a' others' p u' c r5 where
      run: "querySelectorAll_a_href b = a' # others'" "urn_match (link_href h a') = Some p"
        "URL_new h (link_href h a') = Inr u'"
        "decorate h b m = start_player ctor (viewer_args h b u' p) p c r5"
        "thrown r5 = None"
        "trace r5 =
           (case snd (parse_chapters h b) of None \<Rightarrow> []
            | Some e \<Rightarrow> [ConsoleWarn ''Invalid chapters JSON on dm-video block'' [ErrArg e]])"
      by (rule decorate_constructs)
    from run(1) assms(1) have "a' = a" by simp
    with run(2,3) um assms(3) have "p = assetIdPath" "u' = u" by simp_all
    with started_run(2)[OF run(4) run(5) run(6)] show ?thesis
      by (simp add: viewer_args_urls)
  qed
  from shape urls show ?thesis by simp
qed

theorem derived_urls_witness:
  "querySelectorAll_a_href (video_block [] [sample_url]) = anchor sample_url # []
   \<and> urn_exec (link_href sample_host (anchor sample_url))
       = Some (''https://host'', ''/adobe/assets/urn:x:y'')
   \<and> URL_new sample_host (link_href sample_host (anchor sample_url))
       = Inr \<lparr>protocol = ''https:'', hostname = ''host''\<rparr>
   \<and> map (posterimage \<circ> params) (constructed (decorate sample_host (video_block [] [sample_url]) fresh_module))
       = [''https://host'' @ ''/adobe/assets/urn:x:y'' @ ''/as/thumbnail.jpeg?preferwebp=true'']
   \<and> map (sources \<circ> params) (constructed (decorate sample_host (video_block [] [sample_url]) fresh_module))
       = [[(''DASH'', ''https://host'' @ ''/adobe/assets/urn:x:y'' @ ''/manifest.mpd''),
           (''HLS'', ''https://host'' @ ''/adobe/assets/urn:x:y'' @ ''/manifest.m3u8'')]]"
proof -
  have l: "querySelectorAll_a_href (video_block [] [sample_url]) = anchor sample_url # []" by simp
  have e: "urn_exec (link_href sample_host (anchor sample_url))
       = Some (''https://host'', ''/adobe/assets/urn:x:y'')" by simp
  have u: "URL_new sample_host (link_href sample_host (anchor sample_url))
       = Inr \<lparr>protocol = ''https:'', hostname = ''host''\<rparr>" by simp
  have c: "constructed (decorate sample_host (video_block [] [sample_url]) fresh_module) =
      [viewer_args sample_host (video_block [] [sample_url]) \<lparr>protocol = ''https:'', hostname = ''host''\<rparr>
         ''/adobe/assets/urn:x:y'']"
    by (rule decorate_started(2)[where ctor = "\<lambda>args. Inr sample_viewer" and a = "anchor sample_url"
          and others = "[]" and c = None]) simp_all
  from derived_urls[OF l e u, of fresh_module] l e u c show ?thesis by simp
qed

text \<open>
  C1 as stated fails on a URL with a port: everything in front of the asset path is
  \<^verbatim>\<open>https://host:8443\<close>, and the derived URLs start with \<^verbatim>\<open>https://host\<close>.
\<close>

theorem derived_urls_port_counterexample:
  "urn_exec port_url = Some (''https://host:8443'', ''/adobe/assets/urn:x:y'')
   \<and> map (sources \<circ> params) (constructed (decorate sample_host (video_block [] [port_url]) fresh_module))
       = [[(''DASH'', ''https://host/adobe/assets/urn:x:y/manifest.mpd''),
           (''HLS'', ''https://host/adobe/assets/urn:x:y/manifest.m3u8'')]]
   \<and> map (sources \<circ> params) (constructed (decorate sample_host (video_block [] [port_url]) fresh_module))
       \<noteq> [[(''DASH'', ''https://host:8443'' @ ''/adobe/assets/urn:x:y'' @ ''/manifest.mpd''),
            (''HLS'', ''https://host:8443'' @ ''/adobe/assets/urn:x:y'' @ ''/manifest.m3u8'')]]
   \<and> map (posterimage \<circ> params) (constructed (decorate sample_host (video_block [] [port_url]) fresh_module))
       = [''https://host/adobe/assets/urn:x:y/as/thumbnail.jpeg?preferwebp=true'']"
proof -
  have e: "urn_exec port_url = Some (''https://host:8443'', ''/adobe/assets/urn:x:y'')"
    by (simp add: port_url_def urn_here_def toLowerCase_def lower_char_def urn_literal_def)
  have u: "sample_URL port_url = Inr \<lparr>protocol = ''https:'', hostname = ''host''\<rparr>"
    by (simp add: port_url_def sample_URL_def Let_def)
  have c: "constructed (decorate sample_host (video_block [] [port_url]) fresh_module) =
      [viewer_args sample_host (video_block [] [port_url]) \<lparr>protocol = ''https:'', hostname = ''host''\<rparr>
         ''/adobe/assets/urn:x:y'']"
    by (rule decorate_started(2)[where ctor = "\<lambda>args. Inr sample_viewer" and a = "anchor port_url"
          and others = "[]" and c = None]) (simp_all add: e u urn_match_def)
  from e c show ?thesis by (simp add: viewer_args_urls)
qed

subsection \<open>Boolean flags\<close>

lemma getBool_data:
  "dataset b x = Some v \<Longrightarrow>
     getBoolFromDataOrRow (b\<lparr>kids := ks\<rparr>) x i d = (toLowerCase v = ''true'')"
  by (simp add: getBoolFromDataOrRow_def)

lemma getBool_default:
  "dataset b x = None \<Longrightarrow> getTextFromRow b i = [] \<Longrightarrow> getBoolFromDataOrRow b x i d = d"
  by (simp add: getBoolFromDataOrRow_def)

text \<open>
  C5. A flag whose data attribute is present is the attribute's text compared, without
  regard to case, with \<^verbatim>\<open>true\<close>, whatever the rows of the block hold; with no data
  attribute and no text in its row, \<^verbatim>\<open>autoplay\<close>, \<^verbatim>\<open>loop\<close> and \<^verbatim>\<open>muted\<close> are
  false; \<^verbatim>\<open>showControls\<close> is true without its data attribute. These are the values the
  constructor receives, encoded as \<^verbatim>\<open>'1'\<close> and \<^verbatim>\<open>'0'\<close>.
\<close>

theorem flag_resolution:
  "(\<forall>v ks. dataset b ''autoplay'' = Some v \<longrightarrow> autoplay_of (b\<lparr>kids := ks\<rparr>) = (toLowerCase v = ''true''))
 \<and> (\<forall>v ks. dataset b ''loop'' = Some v \<longrightarrow> loop_of (b\<lparr>kids := ks\<rparr>) = (toLowerCase v = ''true''))
 \<and> (\<forall>v ks. dataset b ''muted'' = Some v \<longrightarrow> muted_of (b\<lparr>kids := ks\<rparr>) = (toLowerCase v = ''true''))
 \<and> (\<forall>v ks. dataset b ''controls'' = Some v \<longrightarrow> showControls_of (b\<lparr>kids := ks\<rparr>) = (toLowerCase v = ''true''))
 \<and> (dataset b ''autoplay'' = None \<and> getTextFromRow b 2 = [] \<longrightarrow> \<not> autoplay_of b)
 \<and> (dataset b ''loop'' = None \<and> getTextFromRow b 3 = [] \<longrightarrow> \<not> loop_of b)
 \<and> (dataset b ''muted'' = None \<and> getTextFromRow b 4 = [] \<longrightarrow> \<not> muted_of b)
 \<and> (dataset b ''controls'' = None \<longrightarrow> showControls_of b)
 \<and> (\<forall>args\<in>set (constructed (decorate h b m)).
        autoplay (params args) = (if autoplay_of b then ''1'' else ''0'')
      \<and> loop (params args) = (if loop_of b then ''1'' else ''0'')
      \<and> muted (params args) = (if muted_of b then ''1'' else ''0'')
      \<and> hidecontrolbar (params args) = (if showControls_of b then ''0'' else ''1''))"
proof -
  have data: "\<forall>v ks. dataset b ''autoplay'' = Some v \<longrightarrow> autoplay_of (b\<lparr>kids := ks\<rparr>) = (toLowerCase v = ''true'')"
    "\<forall>v ks. dataset b ''loop'' = Some v \<longrightarrow> loop_of (b\<lparr>kids := ks\<rparr>) = (toLowerCase v = ''true'')"
    "\<forall>v ks. dataset b ''muted'' = Some v \<longrightarrow> muted_of (b\<lparr>kids := ks\<rparr>) = (toLowerCase v = ''true'')"
    "\<forall>v ks. dataset b ''controls'' = Some v \<longrightarrow> showControls_of (b\<lparr>kids := ks\<rparr>) = (toLowerCase v = ''true'')"
    by (simp_all add: autoplay_of_def loop_of_def muted_of_def showControls_of_def getBool_data)
  have dflt: "dataset b ''autoplay'' = None \<and> getTextFromRow b 2 = [] \<longrightarrow> \<not> autoplay_of b"
    "dataset b ''loop'' = None \<and> getTextFromRow b 3 = [] \<longrightarrow> \<not> loop_of b"
    "dataset b ''muted'' = None \<and> getTextFromRow b 4 = [] \<longrightarrow> \<not> muted_of b"
    "dataset b ''controls'' = None \<longrightarrow> showControls_of b"
    by (simp_all add: autoplay_of_def loop_of_def muted_of_def showControls_of_def getBool_default)
  have passed: "\<forall>args\<in>set (constructed (decorate h b m)).
        autoplay (params args) = (if autoplay_of b then ''1'' else ''0'')
      \<and> loop (params args) = (if loop_of b then ''1'' else ''0'')
      \<and> muted (params args) = (if muted_of b then ''1'' else ''0'')
      \<and> hidecontrolbar (params args) = (if showControls_of b then ''0'' else ''1'')"
  proof (cases "constructed (decorate h b m) = []")
    case True
    then show ?thesis by simp
  next
    case False
    then obtain ctor a others p u c r5 where
      run: "decorate h b m = start_player ctor (viewer_args h b u p) p c r5"
        "thrown r5 = None"
        "trace r5 =
           (case snd (parse_chapters h b) of None \<Rightarrow> []
            | Some e \<Rightarrow> [ConsoleWarn ''Invalid chapters JSON on dm-video block'' [ErrArg e]])"
      by (rule decorate_constructs)
    from started_run(2)[OF run] show ?thesis
      by (simp add: viewer_args_flags flag_def)
  qed
  from data dflt passed show ?thesis by blast
qed

theorem flag_resolution_witness:
  "dataset override_block ''autoplay'' = Some ''false''
   \<and> getTextFromRow override_block 2 = ''true''
   \<and> \<not> autoplay_of override_block
   \<and> dataset override_block ''muted'' = None \<and> getTextFromRow override_block 4 = []
   \<and> \<not> muted_of override_block
   \<and> dataset override_block ''controls'' = None
   \<and> showControls_of override_block
   \<and> map (autoplay \<circ> params) (constructed (decorate sample_host override_block fresh_module)) = [''0'']
   \<and> map (muted \<circ> params) (constructed (decorate sample_host override_block fresh_module)) = [''0'']
   \<and> map (hidecontrolbar \<circ> params) (constructed (decorate sample_host override_block fresh_module)) = [''0'']"
proof -
  have d: "dataset override_block ''autoplay'' = Some ''false''"
    "dataset override_block ''muted'' = None" "dataset override_block ''controls'' = None"
    by (simp_all add: override_block_def dataset_def)
  have r: "getTextFromRow override_block 2 = ''true''" "getTextFromRow override_block 4 = []"
    by (simp_all add: override_block_def rows_video_block)
  have low: "toLowerCase ''false'' \<noteq> ''true''"
    by (simp add: toLowerCase_def lower_char_def)
  have same: "override_block\<lparr>kids := kids override_block\<rparr> = override_block" by simp
  have c: "constructed (decorate sample_host override_block fresh_module) =
      [viewer_args sample_host override_block \<lparr>protocol = ''https:'', hostname = ''host''\<rparr>
         ''/adobe/assets/urn:x:y'']"
    by (rule decorate_started(2)[where ctor = "\<lambda>args. Inr sample_viewer" and a = "anchor sample_url"
          and others = "[]" and c = None])
       (simp_all add: override_block_def parse_chapters_def dataset_def)
  from flag_resolution[of override_block sample_host fresh_module] have
    f: "\<not> autoplay_of override_block" "\<not> muted_of override_block" "showControls_of override_block"
    and p: "\<forall>args\<in>set (constructed (decorate sample_host override_block fresh_module)).
        autoplay (params args) = (if autoplay_of override_block then ''1'' else ''0'')
      \<and> loop (params args) = (if loop_of override_block then ''1'' else ''0'')
      \<and> muted (params args) = (if muted_of override_block then ''1'' else ''0'')
      \<and> hidecontrolbar (params args) = (if showControls_of override_block then ''0'' else ''1'')"
    using d r low same by (metis, metis, metis, blast)
  from p c f have "map (autoplay \<circ> params) (constructed (decorate sample_host override_block fresh_module)) = [''0'']"
    "map (muted \<circ> params) (constructed (decorate sample_host override_block fresh_module)) = [''0'']"
    "map (hidecontrolbar \<circ> params) (constructed (decorate sample_host override_block fresh_module)) = [''0'']"
    by simp_all
  with d r f show ?thesis by simp
qed

subsection \<open>Exceptions that leave the decorator\<close>

text \<open>
  A chapter whose label is an object with a property named \<^verbatim>\<open>toString\<close> cannot be
  converted to text: the assignment to \<^verbatim>\<open>textContent\<close> throws, like the others outside
  every \<^verbatim>\<open>try\<close>.
\<close>

lemma chapter_label_object_throws:
  "chapters_ui (JArr [JObj [(''label'', JObj [(''toString'', JNum ''1'')]), (''time'', JNum ''0'')]])
     = Inl TypeError"
  by (simp add: chapter_button_def)

lemma chapter_button_plain:
  "chapters_ui (JArr [JObj [(''label'', JStr ''Intro''), (''time'', JNum ''0'')]])
     = Inr (Some (Element ''div'' [] [''dm-video-chapters''] None
         [Element ''button'' [(''type'', ''button''), (''data-time'', ''0'')]
            [''dm-video-chapter''] None [Text ''Intro'']]))"
  by (simp add: chapter_button_def)

text \<open>
  C2 does not hold of the code. With \<^verbatim>\<open>data-chapters="null"\<close>, \<^verbatim>\<open>JSON.parse\<close>
  returns \<^verbatim>\<open>null\<close> and \<^verbatim>\<open>chapters.length\<close> throws a \<^verbatim>\<open>TypeError\<close> outside every
  \<^verbatim>\<open>try\<close>; with a link whose URL matches the pattern and does not parse,
  \<^verbatim>\<open>new URL(videoUrl)\<close> throws outside every \<^verbatim>\<open>try\<close>. Both exceptions leave
  \<^verbatim>\<open>decorate\<close>, and the marker is never written.
\<close>

theorem uncaught_type_errors:
  "thrown (decorate sample_host null_chapters_block fresh_module) = Some TypeError
   \<and> marker (decorate sample_host null_chapters_block fresh_module) = None
   \<and> marker_writes (decorate sample_host null_chapters_block fresh_module) = []
   \<and> thrown (decorate sample_host (video_block [] [unparsable_url]) fresh_module) = Some TypeError
   \<and> marker (decorate sample_host (video_block [] [unparsable_url]) fresh_module) = None
   \<and> trace (decorate sample_host (video_block [] [unparsable_url]) fresh_module) = []"
proof -
  have ui: "chapters_ui (fst (parse_chapters sample_host null_chapters_block)) = Inl TypeError"
    by (simp add: null_chapters_block_def parse_chapters_def dataset_def sample_JSON_def)
  note n = decorate_chapters_throw[where h = sample_host and b = null_chapters_block
      and ctor = "\<lambda>args. Inr sample_viewer" and a = "anchor sample_url" and others = "[]"
      and p = "''/adobe/assets/urn:x:y''" and u = "\<lparr>protocol = ''https:'', hostname = ''host''\<rparr>"
      and e = TypeError and m = fresh_module]
  have 1: "thrown (decorate sample_host null_chapters_block fresh_module) = Some TypeError"
    by (rule n(1)) (simp_all add: ui, simp_all add: null_chapters_block_def)
  have 2: "marker (decorate sample_host null_chapters_block fresh_module) = None"
    by (subst n(2)) (simp_all add: ui, simp_all add: null_chapters_block_def)
  have 3: "marker_writes (decorate sample_host null_chapters_block fresh_module) = []"
    by (rule n(3)) (simp_all add: ui, simp_all add: null_chapters_block_def)
  have e: "urn_match unparsable_url = Some ''/adobe/assets/urn:x:y''"
    by (simp add: urn_match_def unparsable_url_def urn_here_def toLowerCase_def lower_char_def urn_literal_def)
  have u: "sample_URL unparsable_url = Inl TypeError"
    by (simp add: unparsable_url_def sample_URL_def Let_def)
  note t = decorate_url_throw[where h = sample_host and b = "video_block [] [unparsable_url]"
      and ctor = "\<lambda>args. Inr sample_viewer" and a = "anchor unparsable_url" and others = "[]"
      and p = "''/adobe/assets/urn:x:y''" and e = TypeError and m = fresh_module]
  have 4: "thrown (decorate sample_host (video_block [] [unparsable_url]) fresh_module) = Some TypeError"
    by (rule t(1)) (simp_all add: e u)
  have 5: "marker (decorate sample_host (video_block [] [unparsable_url]) fresh_module) = None"
    by (subst t(2)) (simp_all add: e u)
  have 6: "trace (decorate sample_host (video_block [] [unparsable_url]) fresh_module) = []"
    by (rule t(3)) (simp_all add: e u)
  from 1 2 3 4 5 6 show ?thesis by simp
qed

subsection \<open>The readiness gate\<close>

lemma loadDMVideoViewer_cached:
  assumes "dmViewerPromise m = Some p"
  shows "dmViewerPromise (snd (loadDMVideoViewer m)) = Some p"
    and "loadScript_calls (snd (loadDMVideoViewer m)) = loadScript_calls m"
    and "promises (snd (loadDMVideoViewer m)) = promises m @ [ResolvedWith p]"
    and "fst (loadDMVideoViewer m) = length (promises m)"
  using assms by (simp_all add: loadDMVideoViewer_def async_return_def)

lemma loadDMVideoViewer_first:
  assumes "dmViewerPromise m = None"
  shows "dmViewerPromise (snd (loadDMVideoViewer m)) = Some (length (promises m))"
    and "loadScript_calls (snd (loadDMVideoViewer m)) = loadScript_calls m @ [DM_VIDEO_VIEWER_URL]"
    and "promises (snd (loadDMVideoViewer m)) =
           promises m @ [ViewerLoad, ResolvedWith (length (promises m))]"
    and "fst (loadDMVideoViewer m) = Suc (length (promises m))"
  using assms by (simp_all add: loadDMVideoViewer_def async_return_def Let_def)

lemma load_calls_cached:
  assumes "dmViewerPromise m = Some p"
  shows "dmViewerPromise (snd (load_calls n m)) = Some p
       \<and> loadScript_calls (snd (load_calls n m)) = loadScript_calls m
       \<and> promises (snd (load_calls n m)) = promises m @ replicate n (ResolvedWith p)
       \<and> fst (load_calls n m) = [length (promises m) ..< length (promises m) + n]"
  using assms
proof (induction n arbitrary: m)
  case 0
  then show ?case by simp
next
  case (Suc n)
  let ?m1 = "snd (loadDMVideoViewer m)"
  note c = loadDMVideoViewer_cached[OF Suc.prems]
  note ih = Suc.IH[OF c(1)]
  have unf: "load_calls (Suc n) m =
      (fst (loadDMVideoViewer m) # fst (load_calls n ?m1), snd (load_calls n ?m1))"
    by (simp add: split_beta Let_def)
  have len: "length (promises ?m1) = Suc (length (promises m))" by (simp add: c(3))
  have hs: "fst (load_calls n ?m1) = [Suc (length (promises m)) ..< Suc (length (promises m)) + n]"
    using ih by (simp add: len del: upt_Suc)
  have up: "[length (promises m) ..< length (promises m) + Suc n] =
      length (promises m) # [Suc (length (promises m)) ..< Suc (length (promises m)) + n]"
    by (simp add: upt_conv_Cons del: upt_Suc)
  have ps: "promises (snd (load_calls n ?m1)) = promises m @ replicate (Suc n) (ResolvedWith p)"
    using ih by (simp add: c(3) replicate_app_Cons_same)
  show ?case
    unfolding unf using ih c(2,4) hs up ps by (simp del: upt_Suc replicate_Suc)
qed

text \<open>
  C4, as the code has it. From the freshly loaded module, however many calls of
  \<^verbatim>\<open>loadDMVideoViewer\<close> are made: the first call stores the cached promise (handle 0,
  the promise of the inner async function) and issues the one \<^verbatim>\<open>loadScript\<close> request;
  no later call changes the cached promise or issues another request; and the promise each
  call returns is one resolved with the cached promise, so that all of them settle as it
  does. The returned promises are distinct objects, one per call, as the function is
  declared \<^verbatim>\<open>async\<close>. A call of \<^verbatim>\<open>decorate\<close> makes exactly one call of the gate.
\<close>

theorem gate_is_one_shot:
  "length (loadScript_calls (snd (load_calls n fresh_module))) \<le> 1
 \<and> (0 < n \<longrightarrow>
       dmViewerPromise (snd (load_calls n fresh_module)) = Some 0
     \<and> promises (snd (load_calls n fresh_module)) ! 0 = ViewerLoad
     \<and> loadScript_calls (snd (load_calls n fresh_module)) = [DM_VIDEO_VIEWER_URL])
 \<and> (\<forall>p\<in>set (fst (load_calls n fresh_module)).
       p < length (promises (snd (load_calls n fresh_module)))
     \<and> promises (snd (load_calls n fresh_module)) ! p = ResolvedWith 0)
 \<and> distinct (fst (load_calls n fresh_module))
 \<and> (\<forall>p. dmViewerPromise m = Some p \<longrightarrow>
       dmViewerPromise (snd (loadDMVideoViewer m)) = Some p
     \<and> loadScript_calls (snd (loadDMVideoViewer m)) = loadScript_calls m)
 \<and> modl (decorate h b m) = snd (loadDMVideoViewer m)"
proof -
  have later: "\<forall>p. dmViewerPromise m = Some p \<longrightarrow>
       dmViewerPromise (snd (loadDMVideoViewer m)) = Some p
     \<and> loadScript_calls (snd (loadDMVideoViewer m)) = loadScript_calls m"
    by (simp add: loadDMVideoViewer_cached)
  have dec: "modl (decorate h b m) = snd (loadDMVideoViewer m)"
  proof (cases h b m rule: decorate_cases)
    case (chapthrow ctor a others p u e)
    have "modl (decorate h b m) = modl (render h ctor u p (start_run b m))"
      using chapthrow(1-5)
      by (simp add: decorate_def decorate_link_def Let_def)
    also have "\<dots> = snd (loadDMVideoViewer m)"
    proof -
      obtain ch w where pc: "parse_chapters h (blk (ensure_id h (start_run b m))) = (ch, w)" by force
      show ?thesis
        by (simp add: render_def Let_def pc split: sum.splits option.splits)
    qed
    finally show ?thesis .
  next
    case (started ctor a others p u c r5)
    then show ?thesis by simp
  qed simp_all
  show ?thesis
  proof (cases n)
    case 0
    with later dec show ?thesis by (simp add: fresh_module_def)
  next
    case (Suc k)
    let ?m1 = "snd (loadDMVideoViewer fresh_module)"
    have f: "dmViewerPromise ?m1 = Some 0" "loadScript_calls ?m1 = [DM_VIDEO_VIEWER_URL]"
      "promises ?m1 = [ViewerLoad, ResolvedWith 0]" "fst (loadDMVideoViewer fresh_module) = 1"
      using loadDMVideoViewer_first[of fresh_module] by (simp_all add: fresh_module_def)
    note rest = load_calls_cached[OF f(1), of k]
    have unf: "load_calls n fresh_module =
      (fst (loadDMVideoViewer fresh_module) # fst (load_calls k ?m1), snd (load_calls k ?m1))"
      by (simp add: Suc split_beta Let_def)
    have ps: "promises (snd (load_calls n fresh_module)) =
        ViewerLoad # ResolvedWith 0 # replicate k (ResolvedWith 0)"
      and hs: "fst (load_calls n fresh_module) = Suc 0 # [Suc (Suc 0) ..< Suc (Suc k)]"
      and rest': "dmViewerPromise (snd (load_calls n fresh_module)) = Some 0"
        "loadScript_calls (snd (load_calls n fresh_module)) = [DM_VIDEO_VIEWER_URL]"
      unfolding unf using rest f by (simp_all del: upt_Suc)
    have each: "\<forall>p\<in>set (fst (load_calls n fresh_module)).
       p < length (promises (snd (load_calls n fresh_module)))
     \<and> promises (snd (load_calls n fresh_module)) ! p = ResolvedWith 0"
    proof
      fix p
      assume "p \<in> set (fst (load_calls n fresh_module))"
      then have "p = Suc 0 \<or> (Suc (Suc 0) \<le> p \<and> p < Suc (Suc k))"
        unfolding hs by auto
      then show "p < length (promises (snd (load_calls n fresh_module)))
          \<and> promises (snd (load_calls n fresh_module)) ! p = ResolvedWith 0"
      proof
        assume "p = Suc 0"
        then show ?thesis unfolding ps by simp
      next
        assume range: "Suc (Suc 0) \<le> p \<and> p < Suc (Suc k)"
        define j where "j = p - 2"
        with range have j: "p = Suc (Suc j)" "j < k" by arith+
        show ?thesis unfolding ps j(1) using j(2) by simp
      qed
    qed
    have dist: "distinct (fst (load_calls n fresh_module))"
      unfolding hs by simp
    from later dec ps rest' each dist Suc show ?thesis by simp
  qed
qed

theorem gate_is_one_shot_witness:
  "fst (load_calls 3 fresh_module) = [1, 2, 3]
   \<and> promises (snd (load_calls 3 fresh_module))
       = [ViewerLoad, ResolvedWith 0, ResolvedWith 0, ResolvedWith 0]
   \<and> dmViewerPromise (snd (load_calls 3 fresh_module)) = Some 0
   \<and> loadScript_calls (snd (load_calls 3 fresh_module)) = [DM_VIDEO_VIEWER_URL]
   \<and> length (loadScript_calls (snd (load_calls 3 fresh_module))) \<le> 1"
proof -
  have e: "load_calls 3 fresh_module =
      ([1, 2, 3],
       \<lparr>dmViewerPromise = Some 0,
        promises = [ViewerLoad, ResolvedWith 0, ResolvedWith 0, ResolvedWith 0],
        loadScript_calls = [DM_VIDEO_VIEWER_URL]\<rparr>)"
    by (simp add: numeral_3_eq_3 loadDMVideoViewer_def async_return_def fresh_module_def Let_def)
  from gate_is_one_shot[of 3 fresh_module sample_host "video_block [] []"] show ?thesis
    by (simp add: e)
qed

text \<open>
  C4 as stated fails on "the very same promise": two calls return two promise objects
  (handles 1 and 2), each resolved with the cached promise (handle 0).
\<close>

theorem gate_returns_fresh_promises_counterexample:
  "fst (load_calls 2 fresh_module) = [1, 2]
   \<and> fst (load_calls 2 fresh_module) ! 0 \<noteq> fst (load_calls 2 fresh_module) ! 1
   \<and> dmViewerPromise (snd (load_calls 2 fresh_module)) = Some 0
   \<and> promises (snd (load_calls 2 fresh_module)) = [ViewerLoad, ResolvedWith 0, ResolvedWith 0]"
  by (simp add: numeral_2_eq_2 loadDMVideoViewer_def async_return_def fresh_module_def Let_def)

subsection \<open>Milestones\<close>

lemma delivered_fire:
  "delivered (fireAnalyticsEvent ty a pl w) = delivered w @ [(ty, pl)]"
  by (simp add: delivered_def fireAnalyticsEvent_def split: option.splits)

lemma check_milestones_fires:
  assumes "distinct ms"
  shows "hitMilestones (check_milestones a progress ms s) = hitMilestones s \<union> set (due progress (hitMilestones s) ms)
       \<and> delivered (win (check_milestones a progress ms s)) =
           delivered (win s) @ map milestone_event (due progress (hitMilestones s) ms)"
  using assms
proof (induction ms arbitrary: s)
  case Nil
  then show ?case by (simp add: due_def)
next
  case (Cons m ms)
  from Cons.prems have d: "distinct ms" and notin: "m \<notin> set ms" by simp_all
  show ?case
  proof (cases "num_ge progress m \<and> m \<notin> hitMilestones s")
    case True
    let ?s = "s\<lparr>hitMilestones := insert m (hitMilestones s),
               win := fireAnalyticsEvent ''milestone'' a [(''milestone'', PNum (m * 100))] (win s)\<rparr>"
    have same: "due progress (insert m (hitMilestones s)) ms = due progress (hitMilestones s) ms"
      using notin by (auto simp: due_def intro: filter_cong)
    have step: "check_milestones a progress (m # ms) s = check_milestones a progress ms ?s"
      using True by simp
    have here: "due progress (hitMilestones s) (m # ms) = m # due progress (hitMilestones s) ms"
      using True by (simp add: due_def)
    from Cons.IH[OF d, of ?s] have
      ih: "hitMilestones (check_milestones a progress ms ?s) =
             insert m (hitMilestones s) \<union> set (due progress (hitMilestones s) ms)"
          "delivered (win (check_milestones a progress ms ?s)) =
             delivered (win s) @ milestone_event m # map milestone_event (due progress (hitMilestones s) ms)"
      by (simp_all add: same delivered_fire milestone_event_def)
    show ?thesis
      unfolding step here using ih by auto
  next
    case False
    with Cons.IH[OF d, of s] show ?thesis by (auto simp: due_def)
  qed
qed

lemma distinct_milestones: "distinct milestones"
  by (simp add: milestones_def)

lemma due_ascending: "sorted_wrt (<) (due progress hit milestones)"
proof -
  have "sorted_wrt (<) milestones" by (simp add: milestones_def)
  then show ?thesis unfolding due_def by (rule sorted_wrt_filter)
qed

lemma on_timeupdate_fires:
  "\<exists>fired. hitMilestones (on_timeupdate dv a t s) = hitMilestones s \<union> set fired
        \<and> delivered (win (on_timeupdate dv a t s)) = delivered (win s) @ map milestone_event fired
        \<and> sorted_wrt (<) fired \<and> set fired \<subseteq> set milestones - hitMilestones s"
proof (cases "falsy (or_zero (duration t))")
  case True
  then show ?thesis by (intro exI[of _ "[]"]) (simp add: on_timeupdate_def)
next
  case False
  let ?p = "dv (or_zero (currentTime t)) (or_zero (duration t))"
  from False check_milestones_fires[OF distinct_milestones, of a ?p s] due_ascending[of ?p "hitMilestones s"]
  show ?thesis
    by (intro exI[of _ "due ?p (hitMilestones s) milestones"])
       (auto simp: on_timeupdate_def Let_def due_def)
qed

lemma inj_milestone_event: "inj milestone_event"
  by (rule injI) (simp add: milestone_event_def)

lemma playback_fires:
  "\<exists>fired. hitMilestones (playback dv a ts s) = hitMilestones s \<union> set fired
        \<and> delivered (win (playback dv a ts s)) = delivered (win s) @ map milestone_event fired
        \<and> distinct fired \<and> set fired \<subseteq> set milestones - hitMilestones s"
proof (induction ts arbitrary: s)
  case Nil
  show ?case by (intro exI[of _ "[]"]) simp
next
  case (Cons t ts)
  from on_timeupdate_fires[of dv a t s] obtain f1 where
    f1: "hitMilestones (on_timeupdate dv a t s) = hitMilestones s \<union> set f1"
      "delivered (win (on_timeupdate dv a t s)) = delivered (win s) @ map milestone_event f1"
      "sorted_wrt (<) f1" "set f1 \<subseteq> set milestones - hitMilestones s"
    by blast
  from Cons.IH[of "on_timeupdate dv a t s"] obtain f2 where
    f2: "hitMilestones (playback dv a ts (on_timeupdate dv a t s)) = hitMilestones (on_timeupdate dv a t s) \<union> set f2"
      "delivered (win (playback dv a ts (on_timeupdate dv a t s))) =
         delivered (win (on_timeupdate dv a t s)) @ map milestone_event f2"
      "distinct f2" "set f2 \<subseteq> set milestones - hitMilestones (on_timeupdate dv a t s)"
    by blast
  from f1(3) have d1: "distinct f1"
    by (simp add: strict_sorted_iff)
  from f1 f2 d1 show ?case
    by (intro exI[of _ "f1 @ f2"]) auto
qed

text \<open>
  C3. Over any sequence of ticks, whatever each reports as current time and duration
  and however the division rounds their quotient:
  the events delivered during the session are milestone events of distinct thresholds
  among 0.25, 0.5 and 0.75, none of them a threshold hit before, so each threshold fires
  at most once; the events one tick delivers are milestone events of thresholds in
  ascending order; and a tick whose duration is missing, \<^verbatim>\<open>NaN\<close> or zero changes
  neither the window nor the set of thresholds hit.
\<close>

theorem milestones_fire_once_in_order:
  "(\<exists>fired. delivered (win (playback dv a ts s)) = delivered (win s) @ map milestone_event fired
        \<and> delivered_since (win s) (win (playback dv a ts s)) = map milestone_event fired
        \<and> distinct (map milestone_event fired)
        \<and> set fired \<subseteq> {1 / 4, 1 / 2, 3 / 4} - hitMilestones s)
 \<and> (\<exists>fired. delivered (win (on_timeupdate dv a t s)) = delivered (win s) @ map milestone_event fired
        \<and> sorted_wrt (<) fired \<and> set fired \<subseteq> {1 / 4, 1 / 2, 3 / 4})
 \<and> (duration t = None \<or> duration t = Some NaN \<or> duration t = Some (Fin 0)
       \<longrightarrow> on_timeupdate dv a t s = s)"
proof -
  from playback_fires[of dv a ts s] obtain fired where
    f: "delivered (win (playback dv a ts s)) = delivered (win s) @ map milestone_event fired"
      "distinct fired" "set fired \<subseteq> set milestones - hitMilestones s"
    by blast
  have 1: "\<exists>fired. delivered (win (playback dv a ts s)) = delivered (win s) @ map milestone_event fired
        \<and> delivered_since (win s) (win (playback dv a ts s)) = map milestone_event fired
        \<and> distinct (map milestone_event fired)
        \<and> set fired \<subseteq> {1 / 4, 1 / 2, 3 / 4} - hitMilestones s"
    using f inj_milestone_event
    by (intro exI[of _ fired])
       (auto simp: delivered_since_def distinct_map milestones_def intro: inj_on_subset)
  from on_timeupdate_fires[of dv a t s] have 2:
    "\<exists>fired. delivered (win (on_timeupdate dv a t s)) = delivered (win s) @ map milestone_event fired
        \<and> sorted_wrt (<) fired \<and> set fired \<subseteq> {1 / 4, 1 / 2, 3 / 4}"
    by (auto simp: milestones_def)
  have 3: "duration t = None \<or> duration t = Some NaN \<or> duration t = Some (Fin 0)
       \<longrightarrow> on_timeupdate dv a t s = s"
    by (auto simp: on_timeupdate_def)
  from 1 2 3 show ?thesis by blast
qed

theorem milestones_fire_once_in_order_witness:
  "delivered (win (playback exact_div ''/a''
       [tick_at 8 64, tick_at 40 64, tick_at 40 64, tick_at 5 0, tick_at 16 64, tick_at 63 64] quiet_session))
     = map milestone_event [1 / 4, 1 / 2, 3 / 4]
   \<and> delivered (win (on_timeupdate exact_div ''/a'' (tick_at 40 64) quiet_session)) = map milestone_event [1 / 4, 1 / 2]
   \<and> duration (tick_at 5 0) = Some (Fin 0)
   \<and> on_timeupdate exact_div ''/a'' (tick_at 5 0) quiet_session = quiet_session"
proof -
  have p: "delivered (win (playback exact_div ''/a''
       [tick_at 8 64, tick_at 40 64, tick_at 40 64, tick_at 5 0, tick_at 16 64, tick_at 63 64] quiet_session))
     = map milestone_event [1 / 4, 1 / 2, 3 / 4]"
    by (simp add: quiet_session_def tick_at_def on_timeupdate_def milestones_def fireAnalyticsEvent_def
        delivered_def milestone_event_def)
  have q: "delivered (win (on_timeupdate exact_div ''/a'' (tick_at 40 64) quiet_session)) = map milestone_event [1 / 4, 1 / 2]"
    by (simp add: quiet_session_def tick_at_def on_timeupdate_def milestones_def fireAnalyticsEvent_def
        delivered_def milestone_event_def)
  have z: "duration (tick_at 5 0) = Some (Fin 0)" by (simp add: tick_at_def)
  from milestones_fire_once_in_order[where dv = exact_div and a = "''/a''" and ts = "[]"
      and s = quiet_session and t = "tick_at 5 0"] z
  have "on_timeupdate exact_div ''/a'' (tick_at 5 0) quiet_session = quiet_session" by blast
  with p q z show ?thesis by simp
qed

end
